theory Spec2Isabelle
  imports Complex_Main
begin

section \<open>Numbers, clocks and the platform's atan2\<close>

text \<open>
  A TypeScript \<open>number\<close> that carries a measurement (coordinates, speeds, distances) is
  modelled as a \<open>real\<close>: a finite double, with exact arithmetic. Where rounding changes
  what the code returns, in the great-circle distance of two nearly antipodal points, the
  code is modelled a second time on doubles, with their \<open>NaN\<close> (section "The speed calculator
  on doubles"). Wall-clock readings of \<open>Date.now()\<close> are whole milliseconds, an \<open>int\<close>,
  passed to every operation that reads the clock. \<open>Math.atan2\<close> belongs to the platform; it is
  taken by its mathematical definition.
\<close>

definition atan2 :: "real \<Rightarrow> real \<Rightarrow> real" where
  "atan2 y x =
     (if 0 < x then arctan (y / x)
      else if x < 0 then (if 0 \<le> y then arctan (y / x) + pi else arctan (y / x) - pi)
      else if 0 < y then pi / 2
      else if y < 0 then - (pi / 2)
      else 0)"

section \<open>types/index.ts\<close>

record Coordinates =
  latitude :: real
  longitude :: real

text \<open>
  The fix delivered by expo-location (\<open>Location.LocationObject\<close>), with its \<open>coords\<close>
  object flattened; \<open>speed\<close> is in m/s and may be \<open>null\<close>.
\<close>

record LocationObject = Coordinates +
  speed :: "real option"
  altitude :: "real option"
  accuracy :: "real option"
  timestamp :: real

text \<open>
  \<open>LocationPoint\<close> is a fix tagged with its trip. The optional database \<open>id\<close> is never read
  by the tracking code and is left out. \<open>haversineDistance\<close> accepts any object with the two
  coordinate fields, hence the chain of extensions.
\<close>

record LocationPoint = LocationObject +
  tripId :: int

datatype TripStatus = active | paused | completed

datatype SpeedUnit = kmh | mph

datatype GpsStatus = searching | acquired | lost

datatype PermissionStatus = undetermined | granted | denied | restricted

text \<open>The fields of \<open>Settings\<close> that the tracking hook reads.\<close>

record Settings =
  unit :: SpeedUnit
  autoPauseEnabled :: bool
  autoPauseThreshold :: real

text \<open>
  \<open>TrackingState\<close> together with the store's \<open>tripStartTime\<close>. The state's \<open>accuracy\<close> is
  named \<open>accuracy_state\<close>, since the fix has a field of that name.
\<close>

record TripState =
  isTracking :: bool
  isPaused :: bool
  currentSpeed :: real
  currentTripId :: "int option"
  totalDistance :: real
  avgSpeed :: real
  maxSpeed :: real
  elapsedTime :: int
  lastLocation :: "LocationPoint option"
  gpsStatus :: GpsStatus
  accuracy_state :: "real option"
  tripStartTime :: "int option"

text \<open>
  JavaScript truthiness of a \<open>number | null\<close>, as in \<open>if (!currentTripId)\<close> and
  \<open>state.tripStartTime && ...\<close>: \<open>null\<close> and \<open>0\<close> are falsy.
\<close>

fun truthy :: "int option \<Rightarrow> bool" where
  "truthy None = False"
| "truthy (Some n) = (n \<noteq> 0)"

section \<open>constants/config.ts\<close>

definition MS_TO_KMH :: real where
  "MS_TO_KMH = 3.6"

definition KMH_TO_MPH :: real where
  "KMH_TO_MPH = 0.621371"

definition STATIONARY_CONFIG_threshold :: real where
  "STATIONARY_CONFIG_threshold = 1"

definition STATIONARY_CONFIG_duration :: int where
  "STATIONARY_CONFIG_duration = 5"

text \<open>\<open>DEFAULT_SETTINGS\<close>, restricted to the fields of \<open>Settings\<close> above.\<close>

definition DEFAULT_SETTINGS :: Settings where
  "DEFAULT_SETTINGS = \<lparr>unit = kmh, autoPauseEnabled = False, autoPauseThreshold = 2\<rparr>"

section \<open>services/speed-calculator.ts\<close>

definition toRadians :: "real \<Rightarrow> real" where
  "toRadians degrees = degrees * (pi / 180)"

definition haversineDistance :: "'a Coordinates_scheme \<Rightarrow> 'b Coordinates_scheme \<Rightarrow> real" where
  "haversineDistance point1 point2 =
     (let R = 6371000;
          lat1Rad = toRadians (latitude point1);
          lat2Rad = toRadians (latitude point2);
          deltaLat = toRadians (latitude point2 - latitude point1);
          deltaLon = toRadians (longitude point2 - longitude point1);
          a = sin (deltaLat / 2) * sin (deltaLat / 2) +
              cos lat1Rad * cos lat2Rad * sin (deltaLon / 2) * sin (deltaLon / 2);
          c = 2 * atan2 (sqrt a) (sqrt (1 - a))
      in R * c)"

definition GPS_NOISE_THRESHOLD_KMH :: real where
  "GPS_NOISE_THRESHOLD_KMH = 1.0"

definition calculateSpeed :: "LocationPoint \<Rightarrow> LocationPoint option \<Rightarrow> real" where
  "calculateSpeed currentLocation prevLocation =
     (let fallback =
            (case prevLocation of
               None \<Rightarrow> 0
             | Some prev \<Rightarrow>
                 (let distance = haversineDistance prev currentLocation;
                      timeDiff = (timestamp currentLocation - timestamp prev) / 1000
                  in if timeDiff > 0 then distance / timeDiff * MS_TO_KMH else 0));
          speed0 =
            (case speed currentLocation of
               None \<Rightarrow> fallback
             | Some v \<Rightarrow> if v \<ge> 0 then v * MS_TO_KMH else fallback)
      in if speed0 < GPS_NOISE_THRESHOLD_KMH then 0 else speed0)"

section \<open>The speed calculator on doubles\<close>

text \<open>
  A double is \<open>NaN\<close> or a number (the infinities are left out). \<open>Math.sqrt\<close> of a negative
  number is \<open>NaN\<close>; \<open>NaN\<close> goes through every operation, \<open>Math.atan2\<close> and \<open>Math.max\<close>
  included; a comparison with \<open>NaN\<close> is false.
\<close>

datatype number = NaN | Num real

definition Math_sqrt :: "number \<Rightarrow> number" where
  "Math_sqrt x = (case x of NaN \<Rightarrow> NaN | Num r \<Rightarrow> if r < 0 then NaN else Num (sqrt r))"

definition Math_atan2 :: "number \<Rightarrow> number \<Rightarrow> number" where
  "Math_atan2 y x =
     (case y of NaN \<Rightarrow> NaN | Num a \<Rightarrow> (case x of NaN \<Rightarrow> NaN | Num b \<Rightarrow> Num (atan2 a b)))"

definition Math_max :: "number \<Rightarrow> number \<Rightarrow> number" where
  "Math_max x y =
     (case x of NaN \<Rightarrow> NaN | Num a \<Rightarrow> (case y of NaN \<Rightarrow> NaN | Num b \<Rightarrow> Num (max a b)))"

definition number_times :: "number \<Rightarrow> number \<Rightarrow> number" where
  "number_times x y =
     (case x of NaN \<Rightarrow> NaN | Num a \<Rightarrow> (case y of NaN \<Rightarrow> NaN | Num b \<Rightarrow> Num (a * b)))"

text \<open>Division is only applied to a positive divisor (\<open>timeDiff > 0\<close>).\<close>

definition number_divide :: "number \<Rightarrow> number \<Rightarrow> number" where
  "number_divide x y =
     (case x of NaN \<Rightarrow> NaN | Num a \<Rightarrow> (case y of NaN \<Rightarrow> NaN | Num b \<Rightarrow> Num (a / b)))"

definition number_less :: "number \<Rightarrow> number \<Rightarrow> bool" where
  "number_less x y =
     (case x of NaN \<Rightarrow> False | Num a \<Rightarrow> (case y of NaN \<Rightarrow> False | Num b \<Rightarrow> a < b))"

text \<open>
  The sum \<open>a\<close> of \<open>haversineDistance\<close> in exact arithmetic. The double the code has in \<open>a\<close> is
  this sum as the platform's \<open>Math.sin\<close>, \<open>Math.cos\<close> and rounding deliver it; these are not
  part of the repository, so that double is a parameter of \<open>haversineDistance_double\<close>, which
  is the rest of the function: \<open>c\<close> and \<open>R * c\<close>.
\<close>

definition haversineA :: "'a Coordinates_scheme \<Rightarrow> 'b Coordinates_scheme \<Rightarrow> real" where
  "haversineA point1 point2 =
     (let lat1Rad = toRadians (latitude point1);
          lat2Rad = toRadians (latitude point2);
          deltaLat = toRadians (latitude point2 - latitude point1);
          deltaLon = toRadians (longitude point2 - longitude point1)
      in sin (deltaLat / 2) * sin (deltaLat / 2) +
         cos lat1Rad * cos lat2Rad * sin (deltaLon / 2) * sin (deltaLon / 2))"

definition haversineDistance_double :: "real \<Rightarrow> number" where
  "haversineDistance_double a =
     (let R = Num 6371000;
          c = number_times (Num 2) (Math_atan2 (Math_sqrt (Num a)) (Math_sqrt (Num (1 - a))))
      in number_times R c)"

text \<open>
  \<open>calculateSpeed\<close> on doubles; \<open>distance\<close> is what \<open>haversineDistance(prevLocation,
  currentLocation)\<close> returned, read only when there is a previous location. The noise filter
  \<open>if (speed < GPS_NOISE_THRESHOLD_KMH) return 0\<close> lets \<open>NaN\<close> through.
\<close>

definition calculateSpeed_double :: "number \<Rightarrow> LocationPoint \<Rightarrow> LocationPoint option \<Rightarrow> number" where
  "calculateSpeed_double distance currentLocation prevLocation =
     (let fallback =
            (case prevLocation of
               None \<Rightarrow> Num 0
             | Some prev \<Rightarrow>
                 (let timeDiff = (timestamp currentLocation - timestamp prev) / 1000
                  in if timeDiff > 0
                     then (let speedMs = number_divide distance (Num timeDiff)
                           in number_times speedMs (Num MS_TO_KMH))
                     else Num 0));
          speed0 =
            (case speed currentLocation of
               None \<Rightarrow> fallback
             | Some v \<Rightarrow> if v \<ge> 0 then Num (v * MS_TO_KMH) else fallback)
      in if number_less speed0 (Num GPS_NOISE_THRESHOLD_KMH) then Num 0 else speed0)"

text \<open>\<open>newMaxSpeed\<close> of the store's \<open>updateLocation\<close>, on doubles.\<close>

definition newMaxSpeed_double :: "number \<Rightarrow> number \<Rightarrow> number" where
  "newMaxSpeed_double stateMaxSpeed speedKmh = Math_max stateMaxSpeed speedKmh"

section \<open>stores/trip-store.ts\<close>

definition initialState :: TripState where
  "initialState =
     \<lparr>isTracking = False, isPaused = False, currentSpeed = 0, currentTripId = None,
      totalDistance = 0, avgSpeed = 0, maxSpeed = 0, elapsedTime = 0, lastLocation = None,
      gpsStatus = searching, accuracy_state = None, tripStartTime = None\<rparr>"

text \<open>The store's actions; \<open>now\<close> is the reading of \<open>Date.now()\<close>.\<close>

definition tripStore_startTracking :: "int \<Rightarrow> int \<Rightarrow> TripState \<Rightarrow> TripState" where
  "tripStore_startTracking now tripId' s =
     s\<lparr>isTracking := True, isPaused := False, currentTripId := Some tripId',
       tripStartTime := Some now, totalDistance := 0, avgSpeed := 0, maxSpeed := 0,
       elapsedTime := 0, gpsStatus := searching\<rparr>"

definition tripStore_restoreTracking ::
  "int \<Rightarrow> int \<Rightarrow> int \<Rightarrow> real \<Rightarrow> real \<Rightarrow> real \<Rightarrow> TripState \<Rightarrow> TripState" where
  "tripStore_restoreTracking now tripId' startTime totalDistance' maxSpeed' avgSpeed' s =
     (let elapsedTime' = \<lfloor>(real_of_int now - real_of_int startTime) / 1000\<rfloor>
      in s\<lparr>isTracking := True, isPaused := False, currentTripId := Some tripId',
           tripStartTime := Some startTime, totalDistance := totalDistance',
           maxSpeed := maxSpeed', avgSpeed := avgSpeed', elapsedTime := elapsedTime',
           gpsStatus := searching\<rparr>)"

definition tripStore_stopTracking :: "TripState \<Rightarrow> TripState" where
  "tripStore_stopTracking s =
     s\<lparr>isTracking := False, isPaused := False, currentTripId := None, tripStartTime := None\<rparr>"

definition tripStore_pauseTracking :: "TripState \<Rightarrow> TripState" where
  "tripStore_pauseTracking s = s\<lparr>isPaused := True\<rparr>"

definition tripStore_resumeTracking :: "TripState \<Rightarrow> TripState" where
  "tripStore_resumeTracking s = s\<lparr>isPaused := False\<rparr>"

definition updateLocation :: "LocationPoint \<Rightarrow> real \<Rightarrow> TripState \<Rightarrow> TripState" where
  "updateLocation location speedKmh s =
     (let newMaxSpeed = max (maxSpeed s) speedKmh
      in s\<lparr>currentSpeed := speedKmh, lastLocation := Some location, maxSpeed := newMaxSpeed,
           gpsStatus := acquired, accuracy_state := accuracy location\<rparr>)"

definition updateDistance :: "int \<Rightarrow> real \<Rightarrow> TripState \<Rightarrow> TripState" where
  "updateDistance now distance s =
     (let newTotalDistance = totalDistance s + distance;
          elapsedSeconds =
            (case tripStartTime s of
               None \<Rightarrow> 0
             | Some t \<Rightarrow> if t \<noteq> 0 then (real_of_int now - real_of_int t) / 1000 else 0);
          elapsedHours = elapsedSeconds / 3600;
          avgSpeed' = (if elapsedHours > 0 then (newTotalDistance / 1000) / elapsedHours else 0)
      in s\<lparr>totalDistance := newTotalDistance, avgSpeed := avgSpeed'\<rparr>)"

definition updateGpsStatus :: "GpsStatus \<Rightarrow> TripState \<Rightarrow> TripState" where
  "updateGpsStatus status' s = s\<lparr>gpsStatus := status'\<rparr>"

definition updateElapsedTime :: "int \<Rightarrow> TripState \<Rightarrow> TripState" where
  "updateElapsedTime now s =
     (case tripStartTime s of
        None \<Rightarrow> s
      | Some t \<Rightarrow>
          if t \<noteq> 0 \<and> isTracking s \<and> \<not> isPaused s then
            (let elapsedTime' = \<lfloor>(real_of_int now - real_of_int t) / 1000\<rfloor>;
                 elapsedHours = real_of_int elapsedTime' / 3600;
                 avgSpeed' = (if elapsedHours > 0 then (totalDistance s / 1000) / elapsedHours else 0)
             in s\<lparr>elapsedTime := elapsedTime', avgSpeed := avgSpeed'\<rparr>)
          else s)"

definition tripStore_reset :: "TripState \<Rightarrow> TripState" where
  "tripStore_reset s =
     s\<lparr>isTracking := isTracking initialState, isPaused := isPaused initialState,
       currentSpeed := currentSpeed initialState, currentTripId := currentTripId initialState,
       totalDistance := totalDistance initialState, avgSpeed := avgSpeed initialState,
       maxSpeed := maxSpeed initialState, elapsedTime := elapsedTime initialState,
       lastLocation := lastLocation initialState, gpsStatus := gpsStatus initialState,
       accuracy_state := accuracy_state initialState,
       tripStartTime := tripStartTime initialState\<rparr>"

section \<open>database/queries.ts\<close>

text \<open>
  A row of the \<open>trips\<close> table, under its column names (\<open>id\<close> is \<open>rowid\<close>). The queries map a
  row to a \<open>Trip\<close> field by field, so the row stands for the \<open>Trip\<close> as well. The key is
  \<open>INTEGER PRIMARY KEY AUTOINCREMENT\<close>: \<open>trips_seq\<close> is the largest key handed out so far.
  Only the queries the tracking hook calls are modelled; \<open>deleteTrip\<close> and the reading queries
  of the history screens are left out.
\<close>

record TripRow =
  rowid :: int
  start_time :: int
  end_time :: "int option"
  total_distance :: real
  max_speed :: real
  avg_speed :: real
  status :: TripStatus

record Database =
  trips :: "TripRow list"
  trips_seq :: int
  location_points :: "LocationPoint list"

definition createTrip :: "int \<Rightarrow> Database \<Rightarrow> int \<times> Database" where
  "createTrip now db =
     (let lastInsertRowId = trips_seq db + 1;
          row = \<lparr>rowid = lastInsertRowId, start_time = now, end_time = None,
                 total_distance = 0, max_speed = 0, avg_speed = 0, status = active\<rparr>
      in (lastInsertRowId, db\<lparr>trips := trips db @ [row], trips_seq := lastInsertRowId\<rparr>))"

text \<open>\<open>LIMIT 1\<close> without an order: the table is scanned by key, lowest first.\<close>

definition getActiveTrip :: "Database \<Rightarrow> TripRow option" where
  "getActiveTrip db = find (\<lambda>row. status row = active) (sort_key rowid (trips db))"

text \<open>\<open>updateTripStats\<close> with all three statistics given, as its only caller does.\<close>

definition updateTripStats :: "int \<Rightarrow> real \<Rightarrow> real \<Rightarrow> real \<Rightarrow> Database \<Rightarrow> Database" where
  "updateTripStats tripId' totalDistance' maxSpeed' avgSpeed' db =
     db\<lparr>trips :=
          map (\<lambda>row. if rowid row = tripId'
                     then row\<lparr>total_distance := totalDistance', max_speed := maxSpeed',
                              avg_speed := avgSpeed'\<rparr>
                     else row)
              (trips db)\<rparr>"

definition completeTrip :: "int \<Rightarrow> int \<Rightarrow> Database \<Rightarrow> Database" where
  "completeTrip now tripId' db =
     db\<lparr>trips :=
          map (\<lambda>row. if rowid row = tripId'
                     then row\<lparr>status := completed, end_time := Some now\<rparr>
                     else row)
              (trips db)\<rparr>"

definition addLocationPoint :: "LocationPoint \<Rightarrow> Database \<Rightarrow> Database" where
  "addLocationPoint point db = db\<lparr>location_points := location_points db @ [point]\<rparr>"

section \<open>hooks/useTracking.ts\<close>

text \<open>
  The hook's state: the trip store, the database behind \<open>initDatabase()\<close>, and the refs.
  \<open>stationaryTimerRef\<close> holds the pending \<open>setTimeout\<close>, represented by the instant (ms) at
  which it is due. The callback handed to the Location Source is the \<open>handleLocationUpdate\<close>
  of the render in which tracking was started or restored; all it reads through its captured
  \<open>tripStore\<close> object, apart from the store's actions, is \<open>avgSpeed\<close>, kept here as
  \<open>callbackAvgSpeed\<close>. Notifications and console output are left out. Each handler runs
  atomically, reading the clock once.
\<close>

record Hook =
  tripStore :: TripState
  database :: Database
  tripIdRef :: "int option"
  isPausedRef :: bool
  lastLocationRef :: "LocationPoint option"
  totalDistanceRef :: real
  maxSpeedRef :: real
  tripStartTimeRef :: "int option"
  stationaryTimerRef :: "int option"
  lastGpsUpdateRef :: int
  callbackAvgSpeed :: real

datatype error = TypeError

text \<open>The effect "Sync refs with store state", run by React after a render.\<close>

definition syncRefs :: "Hook \<Rightarrow> Hook" where
  "syncRefs h =
     h\<lparr>tripIdRef := currentTripId (tripStore h),
       isPausedRef := isPaused (tripStore h),
       lastLocationRef := lastLocation (tripStore h),
       totalDistanceRef := totalDistance (tripStore h),
       maxSpeedRef := maxSpeed (tripStore h)\<rparr>"

definition checkForActiveTrip :: "int \<Rightarrow> Hook \<Rightarrow> Hook" where
  "checkForActiveTrip now h =
     (case getActiveTrip (database h) of
        None \<Rightarrow> h
      | Some activeTrip \<Rightarrow>
          if \<not> isTracking (tripStore h) then
            h\<lparr>tripIdRef := Some (rowid activeTrip),
              isPausedRef := False,
              totalDistanceRef := total_distance activeTrip,
              maxSpeedRef := max_speed activeTrip,
              tripStartTimeRef := Some (start_time activeTrip),
              callbackAvgSpeed := avgSpeed (tripStore h),
              tripStore :=
                tripStore_restoreTracking now (rowid activeTrip) (start_time activeTrip)
                  (total_distance activeTrip) (max_speed activeTrip) (avg_speed activeTrip)
                  (tripStore h)\<rparr>
          else h)"

text \<open>
  The body of the one-second interval, which exists only while the store is tracking and
  not paused. \<open>tripStore.lastLocation!\<close> asserts a non-null location: with \<open>null\<close>,
  \<open>updateLocation\<close> throws on \<open>location.accuracy\<close> before it sets anything. The result is the
  error thrown, if any, and the state left behind.
\<close>

definition timerTick :: "int \<Rightarrow> Hook \<Rightarrow> error option \<times> Hook" where
  "timerTick now h =
     (if isTracking (tripStore h) \<and> \<not> isPaused (tripStore h) then
        (let h1 = h\<lparr>tripStore := updateElapsedTime now (tripStore h)\<rparr>;
             timeSinceLastUpdate = now - lastGpsUpdateRef h
         in if timeSinceLastUpdate > 3000 \<and> currentSpeed (tripStore h) > 0 then
              (case lastLocation (tripStore h) of
                 None \<Rightarrow> (Some TypeError, h1)
               | Some location \<Rightarrow>
                   (None, h1\<lparr>tripStore := updateLocation location 0 (tripStore h1)\<rparr>))
            else (None, h1))
      else (None, h))"

text \<open>The body of the five-second interval, which exists while the store is tracking.\<close>

definition checkGpsLoss :: "int \<Rightarrow> Hook \<Rightarrow> Hook" where
  "checkGpsLoss now h =
     (if \<not> isTracking (tripStore h) then h
      else if isPausedRef h then h
      else (let timeSinceLastUpdate = now - lastGpsUpdateRef h
            in if timeSinceLastUpdate > 10000 \<and> gpsStatus (tripStore h) \<noteq> lost
               then h\<lparr>tripStore := updateGpsStatus lost (tripStore h)\<rparr>
               else h))"

text \<open>The callback given to \<open>setTimeout\<close> by \<open>handleStationaryDetection\<close>.\<close>

definition stationaryTimeout :: "Hook \<Rightarrow> Hook" where
  "stationaryTimeout h =
     (let h1 = (if truthy (tripIdRef h) \<and> \<not> isPausedRef h
                then h\<lparr>tripStore := tripStore_pauseTracking (tripStore h)\<rparr>
                else h)
      in h1\<lparr>stationaryTimerRef := None\<rparr>)"

definition handleStationaryDetection :: "Settings \<Rightarrow> int \<Rightarrow> real \<Rightarrow> Hook \<Rightarrow> Hook" where
  "handleStationaryDetection settings now speedKmh h =
     (if \<not> autoPauseEnabled settings \<or> isPausedRef h then h
      else
        (let threshold =
               (if unit settings = mph then autoPauseThreshold settings * 0.621371
                else autoPauseThreshold settings)
         in if speedKmh < threshold then
              (if stationaryTimerRef h = None
               then h\<lparr>stationaryTimerRef := Some (now + STATIONARY_CONFIG_duration * 1000)\<rparr>
               else h)
            else
              (let h1 = (if stationaryTimerRef h \<noteq> None
                         then h\<lparr>stationaryTimerRef := None\<rparr>
                         else h)
               in if isPausedRef h1 \<and> speedKmh \<ge> threshold
                  then h1\<lparr>tripStore := tripStore_resumeTracking (tripStore h1)\<rparr>
                  else h1)))"

text \<open>\<open>newPoint\<close> of \<open>handleLocationUpdate\<close>: the fix tagged with the current trip.\<close>

definition newPointOf :: "int \<Rightarrow> LocationObject \<Rightarrow> LocationPoint" where
  "newPointOf currentTripId' location =
     \<lparr>latitude = latitude location, longitude = longitude location,
      speed = speed location, altitude = altitude location, accuracy = accuracy location,
      timestamp = timestamp location, tripId = currentTripId'\<rparr>"

text \<open>
  \<open>distanceIncrement\<close> of \<open>handleLocationUpdate\<close>: counted only when there is a last location
  and the speed is positive after the noise filter.
\<close>

definition distanceIncrementOf :: "LocationPoint option \<Rightarrow> LocationPoint \<Rightarrow> real \<Rightarrow> real" where
  "distanceIncrementOf lastLocation' newPoint speedKmh =
     (case lastLocation' of
        None \<Rightarrow> 0
      | Some l \<Rightarrow> if speedKmh > 0 then haversineDistance l newPoint else 0)"

text \<open>
  \<open>dbOk\<close> tells whether the two writes in the \<open>try\<close> block succeed; a failure is logged and
  swallowed (the case where the point is written and the statistics are not is left out).
  \<open>tripStore.avgSpeed\<close> there is read from the store object the callback captured.
\<close>

definition handleLocationUpdate :: "Settings \<Rightarrow> int \<Rightarrow> bool \<Rightarrow> LocationObject \<Rightarrow> Hook \<Rightarrow> Hook" where
  "handleLocationUpdate settings now dbOk location h0 =
     (let currentTripId' = tripIdRef h0;
          currentIsPaused = isPausedRef h0;
          h = h0\<lparr>lastGpsUpdateRef := now\<rparr>
      in case currentTripId' of
           None \<Rightarrow> h
         | Some tid \<Rightarrow>
             if tid = 0 then h
             else if currentIsPaused then h
             else
               (let newPoint = newPointOf tid location;
                    speedKmh = calculateSpeed newPoint (lastLocationRef h);
                    distanceIncrement = distanceIncrementOf (lastLocationRef h) newPoint speedKmh;
                    s1 = updateLocation newPoint speedKmh (tripStore h);
                    s2 = (if distanceIncrement > 0 then updateDistance now distanceIncrement s1
                          else s1);
                    h1 = handleStationaryDetection settings now speedKmh (h\<lparr>tripStore := s2\<rparr>);
                    newDistance = totalDistanceRef h1 + distanceIncrement
                in if dbOk then
                     h1\<lparr>database :=
                          updateTripStats tid newDistance (max (maxSpeedRef h1) speedKmh)
                            (callbackAvgSpeed h1)
                            (addLocationPoint newPoint (database h1))\<rparr>
                   else h1))"

text \<open>
  \<open>startTracking\<close>: \<open>foreground\<close> is the permission reported by \<open>checkPermissionStatus\<close>,
  \<open>dbOk\<close> tells whether \<open>initDatabase\<close> and \<open>createTrip\<close> return (otherwise the \<open>catch\<close> block
  runs), \<open>success\<close> is the result of \<open>startFullTracking\<close>.
\<close>

definition startTracking :: "int \<Rightarrow> PermissionStatus \<Rightarrow> bool \<Rightarrow> bool \<Rightarrow> Hook \<Rightarrow> bool \<times> Hook" where
  "startTracking now foreground dbOk success h =
     (if foreground \<noteq> granted then (False, h)
      else if \<not> dbOk then
        (False, h\<lparr>tripIdRef := None, tripStore := tripStore_stopTracking (tripStore h)\<rparr>)
      else
        (let (tripId', db') = createTrip now (database h);
             h1 = h\<lparr>database := db', tripIdRef := Some tripId', isPausedRef := False,
                    lastLocationRef := None, totalDistanceRef := 0, maxSpeedRef := 0,
                    tripStartTimeRef := Some now,
                    callbackAvgSpeed := avgSpeed (tripStore h),
                    tripStore := tripStore_startTracking now tripId' (tripStore h)\<rparr>
         in if \<not> success then
              (False, h1\<lparr>tripIdRef := None, tripStore := tripStore_stopTracking (tripStore h1)\<rparr>)
            else (True, h1)))"

text \<open>
  \<open>startTracking\<close> with permission granted and no exception, in two parts: up to the return
  of \<open>await createTrip(db)\<close>, and from there on. While the first part awaits, the store is
  unchanged, so the start button still shows START. \<open>captured\<close> is the \<open>avgSpeed\<close> of the
  store object of the render in which the button was pressed.
\<close>

definition startTracking_create :: "int \<Rightarrow> Hook \<Rightarrow> int \<times> Hook" where
  "startTracking_create now h =
     (let (tripId', db') = createTrip now (database h) in (tripId', h\<lparr>database := db'\<rparr>))"

definition startTracking_rest :: "int \<Rightarrow> int \<Rightarrow> real \<Rightarrow> bool \<Rightarrow> Hook \<Rightarrow> bool \<times> Hook" where
  "startTracking_rest now tripId' captured success h =
     (let h1 = h\<lparr>tripIdRef := Some tripId', isPausedRef := False,
                    lastLocationRef := None, totalDistanceRef := 0, maxSpeedRef := 0,
                    tripStartTimeRef := Some now,
                    callbackAvgSpeed := captured,
                    tripStore := tripStore_startTracking now tripId' (tripStore h)\<rparr>
      in if \<not> success then
           (False, h1\<lparr>tripIdRef := None, tripStore := tripStore_stopTracking (tripStore h1)\<rparr>)
         else (True, h1))"

text \<open>
  \<open>stopTracking\<close>: \<open>ok\<close> tells whether \<open>stopFullTracking\<close>, \<open>initDatabase\<close> and \<open>completeTrip\<close>
  return; otherwise the \<open>catch\<close> block only logs, and nothing has changed.
\<close>

definition stopTracking :: "int \<Rightarrow> bool \<Rightarrow> Hook \<Rightarrow> Hook" where
  "stopTracking now ok h =
     (if \<not> ok then h
      else
        (let db' = (case tripIdRef h of
                      None \<Rightarrow> database h
                    | Some tid \<Rightarrow> if tid \<noteq> 0 then completeTrip now tid (database h)
                                 else database h)
         in h\<lparr>database := db', tripIdRef := None, isPausedRef := False,
              lastLocationRef := None, tripStartTimeRef := None, stationaryTimerRef := None,
              tripStore := tripStore_reset (tripStore_stopTracking (tripStore h))\<rparr>))"

definition pauseTracking :: "Hook \<Rightarrow> Hook" where
  "pauseTracking h = h\<lparr>isPausedRef := True, tripStore := tripStore_pauseTracking (tripStore h)\<rparr>"

definition resumeTracking :: "Hook \<Rightarrow> Hook" where
  "resumeTracking h = h\<lparr>isPausedRef := False, tripStore := tripStore_resumeTracking (tripStore h)\<rparr>"

section \<open>The hook as a transition system\<close>

text \<open>
  What can happen to a mounted hook: the four commands it returns, a fix from the Location
  Source, React running the ref-syncing effect, the two intervals, and \<open>checkForActiveTrip\<close>
  (event \<open>Foreground\<close>), which runs when the hook mounts, when the app returns to the
  foreground and, through the effect that depends on it, after every change of the store;
  being asynchronous, it is an event of its own that can come at any point. Each event
  carries the outcomes of the collaborators it awaits, and each handler runs as one step;
  \<open>startTracking\<close> is also given in two parts below, for runs in which something happens
  between its awaits. A pending stationary timeout fires as soon as the clock has reached
  its instant.
\<close>

datatype Event =
    Start PermissionStatus bool bool
  | Stop bool
  | Pause
  | Resume
  | Location bool LocationObject
  | Sync
  | Tick
  | GpsCheck
  | Foreground

fun step :: "Settings \<Rightarrow> int \<Rightarrow> Event \<Rightarrow> Hook \<Rightarrow> Hook" where
  "step settings now (Start foreground dbOk success) h = snd (startTracking now foreground dbOk success h)"
| "step settings now (Stop ok) h = stopTracking now ok h"
| "step settings now Pause h = pauseTracking h"
| "step settings now Resume h = resumeTracking h"
| "step settings now (Location dbOk location) h = handleLocationUpdate settings now dbOk location h"
| "step settings now Sync h = syncRefs h"
| "step settings now Tick h = snd (timerTick now h)"
| "step settings now GpsCheck h = checkGpsLoss now h"
| "step settings now Foreground h = checkForActiveTrip now h"

definition fireDue :: "int \<Rightarrow> Hook \<Rightarrow> Hook" where
  "fireDue now h =
     (case stationaryTimerRef h of
        None \<Rightarrow> h
      | Some due \<Rightarrow> if due \<le> now then stationaryTimeout h else h)"

fun run :: "Settings \<Rightarrow> Hook \<Rightarrow> (int \<times> Event) list \<Rightarrow> Hook" where
  "run settings h [] = h"
| "run settings h ((now, e) # es) = run settings (step settings now e (fireDue now h)) es"

section \<open>components/trip: StartStopButton\<close>

text \<open>
  The commands reach the hook through one button and a stop button: the main button calls
  \<open>onStart\<close> when the store is not tracking, \<open>onResume\<close> when it is paused and \<open>onPause\<close>
  otherwise; the stop button is rendered only while tracking. \<open>buttonAllows s e\<close> tells
  whether the buttons can issue command \<open>e\<close> when the store is \<open>s\<close>; the other events do not
  come from the buttons.
\<close>

fun buttonAllows :: "TripState \<Rightarrow> Event \<Rightarrow> bool" where
  "buttonAllows s (Start foreground dbOk success) = (\<not> isTracking s)"
| "buttonAllows s (Stop ok) = isTracking s"
| "buttonAllows s Pause = (isTracking s \<and> \<not> isPaused s)"
| "buttonAllows s Resume = (isTracking s \<and> isPaused s)"
| "buttonAllows s e = True"

section \<open>Vocabulary of the properties\<close>

text \<open>The noise floor and the time delta, in the words of the specification.\<close>

definition spec_noiseFloor :: "real \<Rightarrow> real" where
  "spec_noiseFloor speedKmh = (if speedKmh < 1.0 then 0 else speedKmh)"

definition deltaSeconds :: "LocationPoint \<Rightarrow> LocationPoint \<Rightarrow> real" where
  "deltaSeconds previous current = (timestamp current - timestamp previous) / 1000"

text \<open>A database with no trips, and the hook as it is when first mounted at instant \<open>now\<close>.\<close>

definition emptyDatabase :: Database where
  "emptyDatabase = \<lparr>trips = [], trips_seq = 0, location_points = []\<rparr>"

definition mountedHook :: "Database \<Rightarrow> int \<Rightarrow> Hook" where
  "mountedHook db now =
     \<lparr>tripStore = initialState, database = db, tripIdRef = None, isPausedRef = False,
      lastLocationRef = None, totalDistanceRef = 0, maxSpeedRef = 0, tripStartTimeRef = None,
      stationaryTimerRef = None, lastGpsUpdateRef = now, callbackAvgSpeed = 0\<rparr>"

text \<open>The events that neither start, stop nor restore a trip.\<close>

fun keepsTrip :: "Event \<Rightarrow> bool" where
  "keepsTrip (Start foreground dbOk success) = False"
| "keepsTrip (Stop ok) = False"
| "keepsTrip Foreground = False"
| "keepsTrip e = True"

text \<open>
  An invariant of the hook: the recorded maximum is not negative, in the store and in every
  row, and a non-zero current speed comes with a last location.
\<close>

definition speedSane :: "Hook \<Rightarrow> bool" where
  "speedSane h \<longleftrightarrow>
     0 \<le> maxSpeed (tripStore h) \<and>
     (currentSpeed (tripStore h) \<noteq> 0 \<longrightarrow> lastLocation (tripStore h) \<noteq> None) \<and>
     list_all (\<lambda>row. 0 \<le> max_speed row) (trips (database h))"

text \<open>The trips that are not completed.\<close>

definition openTrips :: "Database \<Rightarrow> TripRow list" where
  "openTrips db = filter (\<lambda>row. status row \<noteq> completed) (trips db)"

text \<open>
  The states after each event of a run, and the number of changes from not paused to paused
  along a sequence of \<open>isPaused\<close> values that follows the value \<open>p\<close>.
\<close>

fun trace :: "Settings \<Rightarrow> Hook \<Rightarrow> (int \<times> Event) list \<Rightarrow> Hook list" where
  "trace settings h [] = []"
| "trace settings h ((now, e) # es) =
     step settings now e (fireDue now h) # trace settings (step settings now e (fireDue now h)) es"

fun pauseCount :: "bool \<Rightarrow> bool list \<Rightarrow> nat" where
  "pauseCount p [] = 0"
| "pauseCount p (q # qs) = (if \<not> p \<and> q then 1 else 0) + pauseCount q qs"

text \<open>
  The threshold \<open>handleStationaryDetection\<close> compares with, and the speed
  \<open>handleLocationUpdate\<close> computes for a fix arriving in state \<open>h\<close>: from the device speed, or
  from the distance to the last location the refs hold.
\<close>

definition autoPauseLimit :: "Settings \<Rightarrow> real" where
  "autoPauseLimit settings =
     (if unit settings = mph then autoPauseThreshold settings * 0.621371
      else autoPauseThreshold settings)"

definition sampleSpeed :: "Hook \<Rightarrow> LocationObject \<Rightarrow> real" where
  "sampleSpeed h location =
     (case tripIdRef h of
        None \<Rightarrow> 0
      | Some tid \<Rightarrow> calculateSpeed (newPointOf tid location) (lastLocationRef h))"

text \<open>
  A stream of fixes: no command of the user occurs, and the computed speed of every fix,
  with the instant at which it arrives, satisfies \<open>P\<close>. The ref-syncing effect, the two
  intervals and \<open>checkForActiveTrip\<close> may run in between.
\<close>

fun notCommand :: "Event \<Rightarrow> bool" where
  "notCommand (Start foreground dbOk success) = False"
| "notCommand (Stop ok) = False"
| "notCommand Pause = False"
| "notCommand Resume = False"
| "notCommand e = True"

fun fixOk :: "(int \<Rightarrow> real \<Rightarrow> bool) \<Rightarrow> int \<Rightarrow> Hook \<Rightarrow> Event \<Rightarrow> bool" where
  "fixOk P now h (Location dbOk location) = P now (sampleSpeed h location)"
| "fixOk P now h e = notCommand e"

fun stream :: "Settings \<Rightarrow> (int \<Rightarrow> real \<Rightarrow> bool) \<Rightarrow> Hook \<Rightarrow> (int \<times> Event) list \<Rightarrow> bool" where
  "stream settings P h [] = True"
| "stream settings P h ((now, e) # es) =
     (fixOk P now (fireDue now h) e \<and>
      stream settings P (step settings now e (fireDue now h)) es)"

text \<open>
  A trip being tracked, not paused, with refs and store in agreement; and such a trip whose
  stationary timeout, if pending, is not due before \<open>limit\<close>.
\<close>

definition underway :: "Hook \<Rightarrow> bool" where
  "underway h \<longleftrightarrow>
     isTracking (tripStore h) \<and> truthy (tripIdRef h) \<and>
     currentTripId (tripStore h) = tripIdRef h \<and>
     \<not> isPausedRef h \<and> \<not> isPaused (tripStore h)"

definition quiet :: "int \<Rightarrow> Hook \<Rightarrow> bool" where
  "quiet limit h \<longleftrightarrow>
     underway h \<and> (case stationaryTimerRef h of None \<Rightarrow> True | Some due \<Rightarrow> limit \<le> due)"

section \<open>Sample data\<close>

definition fixA :: LocationPoint where
  "fixA = \<lparr>latitude = 23.8, longitude = 90.4, speed = Some 5, altitude = None,
           accuracy = Some 4, timestamp = 1000, tripId = 1\<rparr>"

definition fixB :: LocationPoint where
  "fixB = \<lparr>latitude = 23.8, longitude = 90.4, speed = None, altitude = None,
           accuracy = Some 4, timestamp = 3000, tripId = 1\<rparr>"

text \<open>A fix at a fixed place, with timestamp \<open>t\<close> and device speed \<open>v\<close> (m/s).\<close>

definition fixAt :: "real \<Rightarrow> real option \<Rightarrow> LocationObject" where
  "fixAt t v = \<lparr>latitude = 23.8, longitude = 90.4, speed = v, altitude = None,
               accuracy = Some 4, timestamp = t\<rparr>"

definition autoPauseSettings :: Settings where
  "autoPauseSettings = \<lparr>unit = kmh, autoPauseEnabled = True, autoPauseThreshold = 2\<rparr>"

text \<open>Two fixes at 18 and 36 km/h, each followed by the ref-syncing effect; a started trip
  receiving them; and the state that trip is left in.\<close>

definition samples :: "(int \<times> Event) list" where
  "samples = [(2000, Location True (fixAt 2000 (Some 5))), (2000, Sync),
              (3000, Location True (fixAt 3000 (Some 10))), (3000, Sync)]"

definition drive :: "(int \<times> Event) list" where
  "drive = (1000, Start granted True True) # samples"

definition stalled :: Hook where
  "stalled = run DEFAULT_SETTINGS (mountedHook emptyDatabase 0) drive"



text \<open>A trip that stands still from 2 s on, and is paused by the stationary timeout at 7 s.\<close>

definition autoPaused :: "(int \<times> Event) list" where
  "autoPaused = [(1000, Start granted True True), (2000, Location True (fixAt 2000 (Some 0))),
                 (2000, Sync), (7000, Sync)]"

text \<open>
  A started trip with auto-pause on, and fixes at 1 km/h, one of them without a device speed
  (computed speed 0): a stream of them from 3 s to 7.5 s, with a tick and a restore check in
  between, and the ones before and after a spike at 5 s.
\<close>

definition started :: Hook where
  "started = run autoPauseSettings (mountedHook emptyDatabase 0) [(1000, Start granted True True)]"

definition crawl :: "int \<Rightarrow> int \<times> Event" where
  "crawl t = (t, Location True (fixAt (real_of_int t) (Some (5 / 18))))"

definition heldStream :: "(int \<times> Event) list" where
  "heldStream = [crawl 3000, (3000, Sync), crawl 4000, (4500, Tick), crawl 5000,
                 (6000, Location True (fixAt 6000 None)), (6000, Foreground), crawl 7000,
                 (7000, Sync), crawl 7500, (7500, Sync)]"

definition beforeSpike :: "(int \<times> Event) list" where
  "beforeSpike = [crawl 3000, (3000, Sync), crawl 4000]"

definition afterSpike :: "(int \<times> Event) list" where
  "afterSpike = [(5000, Sync), crawl 6000, (6500, GpsCheck), crawl 7000, (7000, Sync)]"

text \<open>
  Two antipodal fixes ten seconds apart, the later one without a device speed, and the
  double that \<open>haversineDistance\<close> has in \<open>a\<close> for them: 1.0000000000000002, one unit in the
  last place above 1.
\<close>

definition fixP :: LocationPoint where
  "fixP = \<lparr>latitude = - 85.47481298446655, longitude = 56.23649105429649, speed = Some 5,
           altitude = None, accuracy = Some 4, timestamp = 1000, tripId = 1\<rparr>"

definition fixQ :: LocationPoint where
  "fixQ = \<lparr>latitude = 85.47481298446655, longitude = 56.23649105429649 - 180, speed = None,
           altitude = None, accuracy = Some 4, timestamp = 11000, tripId = 1\<rparr>"

definition aRounded :: real where
  "aRounded = 1 + 1 / 2 ^ 52"

text \<open>
  START pressed twice, the second time while the first \<open>startTracking\<close> still awaits:
  \<open>pressedOnce\<close> is the state once the first has its trip row, \<open>pressedTwice\<close> the state
  once the second has its row too and both have run to the end.
\<close>

definition pressedOnce :: Hook where
  "pressedOnce = snd (startTracking_create 1000 (mountedHook emptyDatabase 0))"

definition pressedTwice :: Hook where
  "pressedTwice =
     snd (startTracking_rest 1030 (fst (startTracking_create 1010 pressedOnce)) 0 True
       (snd (startTracking_rest 1020 (fst (startTracking_create 1000 (mountedHook emptyDatabase 0)))
              0 True
              (snd (startTracking_create 1010 pressedOnce)))))"

section \<open>Great-circle distance\<close>

lemma atan2_nonneg: "0 \<le> y \<Longrightarrow> 0 \<le> atan2 y x"
proof -
  assume y: "0 \<le> y"
  have p: "- (pi / 2) < arctan (y / x)" by (rule arctan_lbound)
  show ?thesis
  proof (cases "0 < x")
    case True
    then have "0 \<le> y / x" using y by simp
    then have "0 \<le> arctan (y / x)" by simp
    then show ?thesis using True by (simp add: atan2_def)
  next
    case False
    have "0 \<le> arctan (y / x) + pi" using p pi_gt_zero by linarith
    then show ?thesis using False y pi_gt_zero by (simp add: atan2_def)
  qed
qed

lemma hav_arg_nonneg:
  fixes p q d :: real
  shows "0 \<le> sin ((q - p) / 2) * sin ((q - p) / 2) + cos p * cos q * sin (d / 2) * sin (d / 2)"
proof -
  define s where "s = sin (d / 2) * sin (d / 2)"
  have s0: "0 \<le> s" by (simp add: s_def)
  have s1: "s \<le> 1"
  proof -
    have "sin (d / 2) * sin (d / 2) + cos (d / 2) * cos (d / 2) = 1"
      using sin_cos_squared_add [of "d / 2"] by (simp add: power2_eq_square)
    moreover have "0 \<le> cos (d / 2) * cos (d / 2)" by simp
    ultimately show ?thesis unfolding s_def by linarith
  qed
  define A where "A = sin ((q - p) / 2) * sin ((q - p) / 2)"
  have A0: "0 \<le> A" by (simp add: A_def)
  have h: "2 * ((q - p) / 2) = q - p" by simp
  have "cos (q - p) = 1 - 2 * (sin ((q - p) / 2))\<^sup>2"
    using cos_double_sin [of "(q - p) / 2"] unfolding h .
  then have A_eq: "A = (1 - cos (q - p)) / 2"
    by (simp add: A_def power2_eq_square)
  have B0: "0 \<le> A + cos p * cos q"
  proof -
    have "A + cos p * cos q = (1 + cos (p + q)) / 2"
      by (simp add: A_eq cos_diff cos_add field_simps)
    moreover have "0 \<le> (1 + cos (p + q)) / 2"
    proof -
      define c where "c = cos (p + q)"
      have "- 1 \<le> c" by (simp add: c_def)
      then have "0 \<le> (1 + c) / 2" by simp
      then show ?thesis by (simp only: c_def)
    qed
    ultimately show ?thesis by (simp only:)
  qed
  have "A + cos p * cos q * s = (1 - s) * A + s * (A + cos p * cos q)"
    by (simp add: algebra_simps)
  moreover have "0 \<le> (1 - s) * A" using s1 A0 by simp
  moreover have "0 \<le> s * (A + cos p * cos q)" using s0 B0 by simp
  ultimately have "0 \<le> A + cos p * cos q * s" by linarith
  then show ?thesis by (simp add: A_def s_def mult.assoc)
qed

lemma toRadians_diff: "toRadians (x - y) = toRadians x - toRadians y"
  by (simp add: toRadians_def left_diff_distrib)

lemma hav_arg_le_one:
  fixes p q d :: real
  shows "sin ((q - p) / 2) * sin ((q - p) / 2) + cos p * cos q * sin (d / 2) * sin (d / 2) \<le> 1"
proof -
  define s where "s = sin (d / 2) * sin (d / 2)"
  have s0: "0 \<le> s" by (simp add: s_def)
  have s1: "s \<le> 1"
  proof -
    have "sin (d / 2) * sin (d / 2) + cos (d / 2) * cos (d / 2) = 1"
      using sin_cos_squared_add [of "d / 2"] by (simp add: power2_eq_square)
    moreover have "0 \<le> cos (d / 2) * cos (d / 2)" by simp
    ultimately show ?thesis unfolding s_def by linarith
  qed
  define A where "A = sin ((q - p) / 2) * sin ((q - p) / 2)"
  have h: "2 * ((q - p) / 2) = q - p" by simp
  have "cos (q - p) = 1 - 2 * (sin ((q - p) / 2))\<^sup>2"
    using cos_double_sin [of "(q - p) / 2"] unfolding h .
  then have A_eq: "A = (1 - cos (q - p)) / 2"
    by (simp add: A_def power2_eq_square)
  have A1: "A \<le> 1"
  proof -
    define c where "c = cos (q - p)"
    have "- 1 \<le> c" by (simp add: c_def)
    then have "(1 - c) / 2 \<le> 1" by simp
    then show ?thesis by (simp only: A_eq c_def)
  qed
  have B1: "A + cos p * cos q \<le> 1"
  proof -
    have e: "A + cos p * cos q = (1 + cos (p + q)) / 2"
      by (simp add: A_eq cos_diff cos_add field_simps)
    define c where "c = cos (p + q)"
    have "c \<le> 1" by (simp add: c_def)
    then have "(1 + c) / 2 \<le> 1" by simp
    then show ?thesis by (simp only: e c_def)
  qed
  define u where "u = (1 - s) * A"
  define v where "v = s * (A + cos p * cos q)"
  have "A + cos p * cos q * s = u + v"
    by (simp add: u_def v_def algebra_simps)
  moreover have "u \<le> 1 - s"
    using mult_left_mono [of A 1 "1 - s"] s1 A1 by (simp add: u_def)
  moreover have "v \<le> s"
    using mult_left_mono [of "A + cos p * cos q" 1 s] s0 B1 by (simp add: v_def)
  ultimately have "A + cos p * cos q * s \<le> 1" by linarith
  then show ?thesis by (simp add: A_def s_def mult.assoc)
qed

text \<open>
  Both square roots of \<open>haversineDistance\<close> are taken of numbers that are not negative, where
  \<open>Math.sqrt\<close> and \<open>sqrt\<close> agree.
\<close>

lemma haversine_sqrt_domain:
  "0 \<le> sin (toRadians (latitude q - latitude p) / 2) * sin (toRadians (latitude q - latitude p) / 2)
     + cos (toRadians (latitude p)) * cos (toRadians (latitude q))
       * sin (toRadians (longitude q - longitude p) / 2) * sin (toRadians (longitude q - longitude p) / 2)"
  "sin (toRadians (latitude q - latitude p) / 2) * sin (toRadians (latitude q - latitude p) / 2)
     + cos (toRadians (latitude p)) * cos (toRadians (latitude q))
       * sin (toRadians (longitude q - longitude p) / 2) * sin (toRadians (longitude q - longitude p) / 2)
   \<le> 1"
  unfolding toRadians_diff [of "latitude q" "latitude p"]
  by (rule hav_arg_nonneg, rule hav_arg_le_one)

lemma haversineDistance_nonneg: "0 \<le> haversineDistance p q"
proof -
  define a where "a = sin (toRadians (latitude q - latitude p) / 2) * sin (toRadians (latitude q - latitude p) / 2)
     + cos (toRadians (latitude p)) * cos (toRadians (latitude q)) * sin (toRadians (longitude q - longitude p) / 2) * sin (toRadians (longitude q - longitude p) / 2)"
  have "0 \<le> a"
    unfolding a_def toRadians_diff [of "latitude q" "latitude p"] by (rule hav_arg_nonneg)
  then have "0 \<le> atan2 (sqrt a) (sqrt (1 - a))"
    by (intro atan2_nonneg) simp
  moreover have "haversineDistance p q = 6371000 * (2 * atan2 (sqrt a) (sqrt (1 - a)))"
    by (simp add: haversineDistance_def Let_def a_def)
  ultimately show ?thesis by simp
qed

lemma sin_half_sq_sym: "sin (toRadians (x - y) / 2) * sin (toRadians (x - y) / 2)
    = sin (toRadians (y - x) / 2) * sin (toRadians (y - x) / 2)"
proof -
  have "toRadians (x - y) = - toRadians (y - x)"
    by (simp add: toRadians_diff)
  then have "toRadians (x - y) / 2 = - (toRadians (y - x) / 2)"
    by simp
  then show ?thesis by (simp only: sin_minus)
qed

lemma haversineDistance_sym: "haversineDistance p q = haversineDistance q p"
proof -
  have e: "sin (toRadians (latitude q - latitude p) / 2) * sin (toRadians (latitude q - latitude p) / 2)
     + cos (toRadians (latitude p)) * cos (toRadians (latitude q)) * sin (toRadians (longitude q - longitude p) / 2) * sin (toRadians (longitude q - longitude p) / 2)
    = sin (toRadians (latitude p - latitude q) / 2) * sin (toRadians (latitude p - latitude q) / 2)
     + cos (toRadians (latitude q)) * cos (toRadians (latitude p)) * sin (toRadians (longitude p - longitude q) / 2) * sin (toRadians (longitude p - longitude q) / 2)"
    using sin_half_sq_sym [of "latitude q" "latitude p"] sin_half_sq_sym [of "longitude q" "longitude p"]
    by (simp add: mult.assoc mult.commute)
  show ?thesis
    unfolding haversineDistance_def Let_def by (simp only: e)
qed

lemma haversineDistance_same:
  "latitude p = latitude q \<Longrightarrow> longitude p = longitude q \<Longrightarrow> haversineDistance p q = 0"
  by (simp add: haversineDistance_def Let_def toRadians_def atan2_def)

lemma calculateSpeed_nonneg: "0 \<le> calculateSpeed c p"
  by (simp add: calculateSpeed_def GPS_NOISE_THRESHOLD_KMH_def Let_def)

section \<open>The sample processor\<close>

text \<open>
  Claim C1. The speed of a sample is the device speed times 3.6 when the device reports a
  speed that is not negative; otherwise the great-circle distance from the previous point
  over the time delta, times 3.6, when there is a previous point and the delta is positive;
  otherwise 0. A speed below 1.0 becomes exactly 0. The distance increment is the
  great-circle distance from the previous point when there is one and the filtered speed is
  positive, and 0 otherwise. A zero or negative time delta yields speed 0; neither the speed
  nor the increment is ever negative.
\<close>

theorem calculateSpeed_rules:
  "(\<forall>v. speed current = Some v \<and> 0 \<le> v \<longrightarrow>
        calculateSpeed current previous = spec_noiseFloor (v * 3.6))
   \<and> (\<forall>p. (speed current = None \<or> (\<exists>v. speed current = Some v \<and> v < 0)) \<and>
          previous = Some p \<and> 0 < deltaSeconds p current \<longrightarrow>
        calculateSpeed current previous =
          spec_noiseFloor (haversineDistance p current / deltaSeconds p current * 3.6))
   \<and> ((speed current = None \<or> (\<exists>v. speed current = Some v \<and> v < 0)) \<and>
        (previous = None \<or> (\<exists>p. previous = Some p \<and> deltaSeconds p current \<le> 0)) \<longrightarrow>
        calculateSpeed current previous = 0)
   \<and> distanceIncrementOf previous current (calculateSpeed current previous) =
        (case previous of
           None \<Rightarrow> 0
         | Some p \<Rightarrow> if 0 < calculateSpeed current previous then haversineDistance p current else 0)
   \<and> 0 \<le> calculateSpeed current previous
   \<and> 0 \<le> distanceIncrementOf previous current (calculateSpeed current previous)"
proof (intro conjI allI impI)
  fix v assume "speed current = Some v \<and> 0 \<le> v"
  then show "calculateSpeed current previous = spec_noiseFloor (v * 3.6)"
    by (simp add: calculateSpeed_def spec_noiseFloor_def GPS_NOISE_THRESHOLD_KMH_def MS_TO_KMH_def Let_def)
next
  fix p
  assume "(speed current = None \<or> (\<exists>v. speed current = Some v \<and> v < 0)) \<and>
          previous = Some p \<and> 0 < deltaSeconds p current"
  then show "calculateSpeed current previous =
          spec_noiseFloor (haversineDistance p current / deltaSeconds p current * 3.6)"
    by (auto simp: calculateSpeed_def spec_noiseFloor_def GPS_NOISE_THRESHOLD_KMH_def
          MS_TO_KMH_def deltaSeconds_def Let_def)
next
  assume "(speed current = None \<or> (\<exists>v. speed current = Some v \<and> v < 0)) \<and>
        (previous = None \<or> (\<exists>p. previous = Some p \<and> deltaSeconds p current \<le> 0))"
  then show "calculateSpeed current previous = 0"
    by (auto simp: calculateSpeed_def GPS_NOISE_THRESHOLD_KMH_def deltaSeconds_def Let_def)
next
  show "distanceIncrementOf previous current (calculateSpeed current previous) =
        (case previous of
           None \<Rightarrow> 0
         | Some p \<Rightarrow> if 0 < calculateSpeed current previous then haversineDistance p current else 0)"
    by (simp add: distanceIncrementOf_def)
next
  show "0 \<le> calculateSpeed current previous" by (rule calculateSpeed_nonneg)
next
  show "0 \<le> distanceIncrementOf previous current (calculateSpeed current previous)"
    by (simp add: distanceIncrementOf_def haversineDistance_nonneg split: option.splits)
qed

theorem calculateSpeed_rules_witness:
  "speed fixA = Some 5 \<and> (0::real) \<le> 5 \<and> calculateSpeed fixA None = 18
   \<and> speed fixB = None \<and> 0 < deltaSeconds fixA fixB \<and> calculateSpeed fixB (Some fixA) = 0
   \<and> deltaSeconds fixB fixB \<le> 0 \<and> calculateSpeed fixB (Some fixB) = 0"
  using calculateSpeed_rules [of fixA None] calculateSpeed_rules [of fixB "Some fixA"]
    calculateSpeed_rules [of fixB "Some fixB"]
  by (simp add: fixA_def fixB_def deltaSeconds_def spec_noiseFloor_def haversineDistance_same)

text \<open>In exact arithmetic the filtered speed is 0 or at least 1.\<close>

lemma calculateSpeed_exact_range:
  "calculateSpeed currentLocation prevLocation = 0 \<or> 1 \<le> calculateSpeed currentLocation prevLocation"
  by (simp add: calculateSpeed_def GPS_NOISE_THRESHOLD_KMH_def Let_def)

text \<open>
  Claim C8. The great-circle distance is symmetric and is zero from a point to itself.
  Hence two consecutive fixes with the same coordinates, the later one without a device
  speed and with a positive time delta, give speed 0 and distance increment 0, whatever
  device speed the earlier fix reported.
\<close>

theorem haversineDistance_symmetric_zero:
  "haversineDistance a b = haversineDistance b a
   \<and> haversineDistance a a = 0
   \<and> (latitude previous = latitude current \<and> longitude previous = longitude current \<and>
      speed current = None \<and> 0 < deltaSeconds previous current \<longrightarrow>
        calculateSpeed current (Some previous) = 0 \<and>
        distanceIncrementOf (Some previous) current (calculateSpeed current (Some previous)) = 0)"
proof (intro conjI impI)
  show "haversineDistance a b = haversineDistance b a" by (rule haversineDistance_sym)
  show "haversineDistance a a = 0" by (simp add: haversineDistance_same)
next
  assume h: "latitude previous = latitude current \<and> longitude previous = longitude current \<and>
      speed current = None \<and> 0 < deltaSeconds previous current"
  then have d: "haversineDistance previous current = 0" by (simp add: haversineDistance_same)
  show "calculateSpeed current (Some previous) = 0"
    using h d by (simp add: calculateSpeed_def Let_def GPS_NOISE_THRESHOLD_KMH_def)
  then show "distanceIncrementOf (Some previous) current (calculateSpeed current (Some previous)) = 0"
    by (simp add: distanceIncrementOf_def)
qed

theorem haversineDistance_symmetric_zero_witness:
  "latitude (fixA\<lparr>speed := Some 30\<rparr>) = latitude fixB \<and> longitude (fixA\<lparr>speed := Some 30\<rparr>) = longitude fixB
   \<and> speed fixB = None \<and> 0 < deltaSeconds (fixA\<lparr>speed := Some 30\<rparr>) fixB
   \<and> calculateSpeed fixB (Some (fixA\<lparr>speed := Some 30\<rparr>)) = 0
   \<and> distanceIncrementOf (Some (fixA\<lparr>speed := Some 30\<rparr>)) fixB (calculateSpeed fixB (Some (fixA\<lparr>speed := Some 30\<rparr>))) = 0"
  using haversineDistance_symmetric_zero [of fixA fixA "fixA\<lparr>speed := Some 30\<rparr>" fixB]
  by (simp add: fixA_def fixB_def deltaSeconds_def distanceIncrementOf_def)

section \<open>Where rounding matters: antipodal fixes\<close>

text \<open>
  With the exact sum for \<open>a\<close>, which lies between 0 and 1, the functions on doubles return what
  the functions on reals return: \<open>NaN\<close> can only come from rounding.
\<close>

lemma haversineA_bounds: "0 \<le> haversineA p q \<and> haversineA p q \<le> 1"
  using haversine_sqrt_domain [of q p] by (simp add: haversineA_def Let_def)

lemma haversineDistance_haversineA:
  "haversineDistance p q
     = 6371000 * (2 * atan2 (sqrt (haversineA p q)) (sqrt (1 - haversineA p q)))"
  by (simp add: haversineDistance_def haversineA_def Let_def)

lemma haversineDistance_double_exact:
  "haversineDistance_double (haversineA p q) = Num (haversineDistance p q)"
  using haversineA_bounds [of p q]
  by (simp add: haversineDistance_double_def haversineDistance_haversineA Math_sqrt_def
      Math_atan2_def number_times_def Let_def)

lemma calculateSpeed_double_exact:
  "calculateSpeed_double (Num (haversineDistance prev current)) current (Some prev)
     = Num (calculateSpeed current (Some prev))"
  "calculateSpeed_double distance current None = Num (calculateSpeed current None)"
  by (simp_all add: calculateSpeed_double_def calculateSpeed_def number_times_def
      number_divide_def number_less_def Let_def split: option.splits)

text \<open>
  For two antipodal points the exact sum is 1, the largest value it can take, so that a
  rounding error upwards makes \<open>1 - a\<close> negative.
\<close>

lemma haversineA_antipodal:
  assumes "latitude q = - latitude p" and "longitude q = longitude p - 180"
  shows "haversineA p q = 1"
proof -
  define x where "x = toRadians (latitude p)"
  have lat: "toRadians (latitude q - latitude p) / 2 = - x"
    using assms(1) by (simp add: x_def toRadians_def)
  have lat2: "toRadians (latitude q) = - x"
    using assms(1) by (simp add: x_def toRadians_def)
  have lon: "toRadians (longitude q - longitude p) / 2 = - (pi / 2)"
    using assms(2) by (simp add: toRadians_def)
  have "haversineA p q = sin (- x) * sin (- x) + cos x * cos (- x) * sin (- (pi / 2)) * sin (- (pi / 2))"
    unfolding haversineA_def Let_def lat lat2 lon x_def [symmetric] ..
  also have "\<dots> = sin x * sin x + cos x * cos x"
    by simp
  also have "\<dots> = 1"
    using sin_cos_squared_add [of x] by (simp add: power2_eq_square)
  finally show ?thesis .
qed

lemma haversineDistance_double_above_one: "1 < a \<Longrightarrow> haversineDistance_double a = NaN"
  by (simp add: haversineDistance_double_def Math_sqrt_def Math_atan2_def number_times_def Let_def)

text \<open>
  Claim C10 against the code: for the antipodal fixes \<open>fixP\<close> and \<open>fixQ\<close> the exact sum is 1 and
  the double in \<open>a\<close> is \<open>aRounded\<close>, just above 1. Then \<open>Math.sqrt(1 - a)\<close> is \<open>NaN\<close>,
  \<open>haversineDistance\<close> returns \<open>NaN\<close>, and \<open>calculateSpeed\<close>, whose noise filter lets \<open>NaN\<close>
  through, returns \<open>NaN\<close>: a result that is neither 0 nor at least 1.
\<close>

theorem calculateSpeed_returns_NaN:
  "haversineA fixP fixQ = 1
   \<and> 1 < aRounded
   \<and> Math_sqrt (Num (1 - aRounded)) = NaN
   \<and> haversineDistance_double aRounded = NaN
   \<and> calculateSpeed_double (haversineDistance_double aRounded) fixQ (Some fixP) = NaN"
proof -
  have a: "haversineA fixP fixQ = 1"
    by (rule haversineA_antipodal) (simp_all add: fixP_def fixQ_def)
  have b: "1 < aRounded" by (simp add: aRounded_def)
  have c: "Math_sqrt (Num (1 - aRounded)) = NaN"
    using b by (simp add: Math_sqrt_def)
  have d: "haversineDistance_double aRounded = NaN"
    using b by (rule haversineDistance_double_above_one)
  have e: "calculateSpeed_double NaN fixQ (Some fixP) = NaN"
    by (simp add: calculateSpeed_double_def fixP_def fixQ_def number_times_def
        number_divide_def number_less_def Let_def)
  show ?thesis using a b c d e by simp
qed

text \<open>
  Claim C2 against the code: the first of the two fixes, at 5 m/s, makes the maximum speed
  18; the second, whose computed speed is \<open>NaN\<close>, makes it \<open>Math.max(18, NaN)\<close>, which is
  \<open>NaN\<close>: the new maximum is neither 18 nor above 18, and the recorded maximum is lost.
\<close>

theorem maxSpeed_lost_to_NaN:
  "calculateSpeed_double (Num 0) fixP None = Num 18
   \<and> newMaxSpeed_double (Num 0) (calculateSpeed_double (Num 0) fixP None) = Num 18
   \<and> newMaxSpeed_double (Num 18)
        (calculateSpeed_double (haversineDistance_double aRounded) fixQ (Some fixP)) = NaN
   \<and> \<not> number_less (Num 18) (newMaxSpeed_double (Num 18)
        (calculateSpeed_double (haversineDistance_double aRounded) fixQ (Some fixP)))
   \<and> newMaxSpeed_double (Num 18)
        (calculateSpeed_double (haversineDistance_double aRounded) fixQ (Some fixP)) \<noteq> Num 18"
proof -
  have b: "1 < aRounded" by (simp add: aRounded_def)
  have d: "haversineDistance_double aRounded = NaN"
    using b by (rule haversineDistance_double_above_one)
  have e: "calculateSpeed_double NaN fixQ (Some fixP) = NaN"
    by (simp add: calculateSpeed_double_def fixP_def fixQ_def number_times_def
        number_divide_def number_less_def Let_def)
  have f: "calculateSpeed_double (Num 0) fixP None = Num 18"
    by (simp add: calculateSpeed_double_def fixP_def number_less_def MS_TO_KMH_def
        GPS_NOISE_THRESHOLD_KMH_def Let_def)
  show ?thesis
    using d e f by (simp add: newMaxSpeed_double_def Math_max_def number_less_def)
qed

section \<open>What each operation leaves alone\<close>

lemma handleStationaryDetection_store [simp]:
  "tripStore (handleStationaryDetection settings now v h) = tripStore h"
  by (simp add: handleStationaryDetection_def Let_def)

lemma handleStationaryDetection_database [simp]:
  "database (handleStationaryDetection settings now v h) = database h"
  by (simp add: handleStationaryDetection_def Let_def)

lemma handleStationaryDetection_refs [simp]:
  "tripIdRef (handleStationaryDetection settings now v h) = tripIdRef h"
  "isPausedRef (handleStationaryDetection settings now v h) = isPausedRef h"
  "lastLocationRef (handleStationaryDetection settings now v h) = lastLocationRef h"
  "totalDistanceRef (handleStationaryDetection settings now v h) = totalDistanceRef h"
  "maxSpeedRef (handleStationaryDetection settings now v h) = maxSpeedRef h"
  "tripStartTimeRef (handleStationaryDetection settings now v h) = tripStartTimeRef h"
  "lastGpsUpdateRef (handleStationaryDetection settings now v h) = lastGpsUpdateRef h"
  "callbackAvgSpeed (handleStationaryDetection settings now v h) = callbackAvgSpeed h"
  by (simp_all add: handleStationaryDetection_def Let_def)

lemma updateLocation_fields [simp]:
  "totalDistance (updateLocation l v s) = totalDistance s"
  "maxSpeed (updateLocation l v s) = max (maxSpeed s) v"
  "currentSpeed (updateLocation l v s) = v"
  "lastLocation (updateLocation l v s) = Some l"
  "isPaused (updateLocation l v s) = isPaused s"
  "isTracking (updateLocation l v s) = isTracking s"
  "currentTripId (updateLocation l v s) = currentTripId s"
  "tripStartTime (updateLocation l v s) = tripStartTime s"
  "avgSpeed (updateLocation l v s) = avgSpeed s"
  "elapsedTime (updateLocation l v s) = elapsedTime s"
  by (simp_all add: updateLocation_def Let_def)

lemma updateDistance_fields [simp]:
  "totalDistance (updateDistance now d s) = totalDistance s + d"
  "maxSpeed (updateDistance now d s) = maxSpeed s"
  "currentSpeed (updateDistance now d s) = currentSpeed s"
  "lastLocation (updateDistance now d s) = lastLocation s"
  "isPaused (updateDistance now d s) = isPaused s"
  "isTracking (updateDistance now d s) = isTracking s"
  "currentTripId (updateDistance now d s) = currentTripId s"
  "tripStartTime (updateDistance now d s) = tripStartTime s"
  by (simp_all add: updateDistance_def Let_def)

lemma updateElapsedTime_fields [simp]:
  "totalDistance (updateElapsedTime now s) = totalDistance s"
  "maxSpeed (updateElapsedTime now s) = maxSpeed s"
  "currentSpeed (updateElapsedTime now s) = currentSpeed s"
  "lastLocation (updateElapsedTime now s) = lastLocation s"
  "isPaused (updateElapsedTime now s) = isPaused s"
  "isTracking (updateElapsedTime now s) = isTracking s"
  "currentTripId (updateElapsedTime now s) = currentTripId s"
  "tripStartTime (updateElapsedTime now s) = tripStartTime s"
  by (simp_all add: updateElapsedTime_def Let_def split: option.splits)

lemma handleLocationUpdate_isPaused [simp]:
  "isPaused (tripStore (handleLocationUpdate settings now dbOk location h)) = isPaused (tripStore h)"
  by (simp add: handleLocationUpdate_def Let_def split: option.splits)

lemma handleLocationUpdate_isTracking [simp]:
  "isTracking (tripStore (handleLocationUpdate settings now dbOk location h)) = isTracking (tripStore h)"
  by (simp add: handleLocationUpdate_def Let_def split: option.splits)

text \<open>Unfolding sets, for evaluating the hook on given events.\<close>

lemmas store_defs = initialState_def tripStore_startTracking_def tripStore_restoreTracking_def
  tripStore_stopTracking_def tripStore_pauseTracking_def tripStore_resumeTracking_def
  updateLocation_def updateDistance_def updateGpsStatus_def updateElapsedTime_def
  tripStore_reset_def

lemmas db_defs = createTrip_def getActiveTrip_def updateTripStats_def completeTrip_def
  addLocationPoint_def emptyDatabase_def

lemmas hook_defs = syncRefs_def checkForActiveTrip_def timerTick_def checkGpsLoss_def
  stationaryTimeout_def handleStationaryDetection_def newPointOf_def distanceIncrementOf_def
  handleLocationUpdate_def startTracking_def stopTracking_def pauseTracking_def
  resumeTracking_def fireDue_def mountedHook_def startTracking_create_def
  startTracking_rest_def

lemmas const_defs = MS_TO_KMH_def GPS_NOISE_THRESHOLD_KMH_def STATIONARY_CONFIG_duration_def
  calculateSpeed_def

section \<open>The trip aggregate\<close>

lemma handleLocationUpdate_totalDistance:
  "totalDistance (tripStore h) \<le> totalDistance (tripStore (handleLocationUpdate settings now dbOk location h))"
  by (simp add: handleLocationUpdate_def Let_def split: option.splits)

lemma handleLocationUpdate_maxSpeed:
  "maxSpeed (tripStore h) \<le> maxSpeed (tripStore (handleLocationUpdate settings now dbOk location h))"
  by (simp add: handleLocationUpdate_def Let_def split: option.splits)

lemma distanceIncrementOf_nonneg: "0 \<le> distanceIncrementOf prev p v"
  by (simp add: distanceIncrementOf_def haversineDistance_nonneg split: option.splits)

text \<open>What a fix does to the store of a trip that is tracked and not paused.\<close>

lemma handleLocationUpdate_accounting:
  assumes "tripIdRef h = Some tid" and "tid \<noteq> 0" and "\<not> isPausedRef h"
  shows "currentSpeed (tripStore (handleLocationUpdate settings now dbOk location h))
       = calculateSpeed (newPointOf tid location) (lastLocationRef h)"
    and "maxSpeed (tripStore (handleLocationUpdate settings now dbOk location h))
       = max (maxSpeed (tripStore h)) (calculateSpeed (newPointOf tid location) (lastLocationRef h))"
    and "totalDistance (tripStore (handleLocationUpdate settings now dbOk location h))
       = totalDistance (tripStore h)
         + distanceIncrementOf (lastLocationRef h) (newPointOf tid location)
             (calculateSpeed (newPointOf tid location) (lastLocationRef h))"
proof -
  show "currentSpeed (tripStore (handleLocationUpdate settings now dbOk location h))
       = calculateSpeed (newPointOf tid location) (lastLocationRef h)"
    using assms by (simp add: handleLocationUpdate_def Let_def)
  show "maxSpeed (tripStore (handleLocationUpdate settings now dbOk location h))
       = max (maxSpeed (tripStore h)) (calculateSpeed (newPointOf tid location) (lastLocationRef h))"
    using assms by (simp add: handleLocationUpdate_def Let_def)
  have "0 \<le> distanceIncrementOf (lastLocationRef h) (newPointOf tid location)
             (calculateSpeed (newPointOf tid location) (lastLocationRef h))"
    by (rule distanceIncrementOf_nonneg)
  then show "totalDistance (tripStore (handleLocationUpdate settings now dbOk location h))
       = totalDistance (tripStore h)
         + distanceIncrementOf (lastLocationRef h) (newPointOf tid location)
             (calculateSpeed (newPointOf tid location) (lastLocationRef h))"
    using assms by (simp add: handleLocationUpdate_def Let_def)
qed

lemma fireDue_totals [simp]:
  "totalDistance (tripStore (fireDue now h)) = totalDistance (tripStore h)"
  "maxSpeed (tripStore (fireDue now h)) = maxSpeed (tripStore h)"
  by (simp_all add: fireDue_def stationaryTimeout_def tripStore_pauseTracking_def Let_def
        split: option.splits)

lemma step_totals:
  assumes "keepsTrip e"
  shows "totalDistance (tripStore h) \<le> totalDistance (tripStore (step settings now e h))"
    and "maxSpeed (tripStore h) \<le> maxSpeed (tripStore (step settings now e h))"
proof -
  show "totalDistance (tripStore h) \<le> totalDistance (tripStore (step settings now e h))"
    using assms
    by (cases e)
      (simp_all add: handleLocationUpdate_totalDistance pauseTracking_def resumeTracking_def
        tripStore_pauseTracking_def tripStore_resumeTracking_def syncRefs_def timerTick_def
        checkGpsLoss_def updateGpsStatus_def Let_def split: option.splits)
  show "maxSpeed (tripStore h) \<le> maxSpeed (tripStore (step settings now e h))"
    using assms
    by (cases e)
      (simp_all add: handleLocationUpdate_maxSpeed pauseTracking_def resumeTracking_def
        tripStore_pauseTracking_def tripStore_resumeTracking_def syncRefs_def timerTick_def
        checkGpsLoss_def updateGpsStatus_def Let_def split: option.splits)
qed

text \<open>
  In exact arithmetic the total distance and the maximum speed of the store never decrease
  over events that neither start, stop nor restore a trip.
\<close>

lemma run_totals:
  "list_all (\<lambda>(now, e). keepsTrip e) es \<Longrightarrow>
   totalDistance (tripStore h) \<le> totalDistance (tripStore (run settings h es)) \<and>
   maxSpeed (tripStore h) \<le> maxSpeed (tripStore (run settings h es))"
proof (induction es arbitrary: h)
  case Nil
  then show ?case by simp
next
  case (Cons x es)
  obtain now e where x: "x = (now, e)" by (cases x)
  from Cons.prems x have k: "keepsTrip e" and rest: "list_all (\<lambda>(now, e). keepsTrip e) es"
    by simp_all
  let ?h1 = "step settings now e (fireDue now h)"
  have a: "totalDistance (tripStore h) \<le> totalDistance (tripStore ?h1)"
    using step_totals(1) [OF k, of "fireDue now h" settings now] by simp
  have b: "maxSpeed (tripStore h) \<le> maxSpeed (tripStore ?h1)"
    using step_totals(2) [OF k, of "fireDue now h" settings now] by simp
  from Cons.IH [OF rest, of ?h1] a b show ?case
    by (simp add: x)
qed

section \<open>The speed-decay watchdog\<close>

lemma find_list_all: "find P xs = Some x \<Longrightarrow> list_all Q xs \<Longrightarrow> Q x"
  by (induction xs) (auto split: if_splits)

lemma speedSane_fireDue: "speedSane h \<Longrightarrow> speedSane (fireDue now h)"
  by (simp add: speedSane_def fireDue_def stationaryTimeout_def tripStore_pauseTracking_def
      split: option.splits)

lemma speedSane_handleLocationUpdate:
  assumes "speedSane h"
  shows "speedSane (handleLocationUpdate settings now dbOk location h)"
proof -
  have m: "\<And>a b. 0 \<le> max a (calculateSpeed b (lastLocationRef h))"
    using calculateSpeed_nonneg by (simp add: le_max_iff_disj)
  show ?thesis
    using assms m
    by (auto simp: speedSane_def handleLocationUpdate_def Let_def updateTripStats_def
        addLocationPoint_def list_all_iff le_max_iff_disj split: option.splits)
qed

lemma speedSane_checkForActiveTrip:
  assumes "speedSane h"
  shows "speedSane (checkForActiveTrip now h)"
proof (cases "getActiveTrip (database h)")
  case None
  then show ?thesis using assms by (simp add: checkForActiveTrip_def)
next
  case (Some row)
  then have "0 \<le> max_speed row"
    using assms find_list_all [of "\<lambda>row. status row = active"
        "sort_key rowid (trips (database h))" row "\<lambda>row. 0 \<le> max_speed row"]
    by (simp add: getActiveTrip_def speedSane_def list_all_iff)
  then show ?thesis
    using assms Some
    by (simp add: checkForActiveTrip_def speedSane_def tripStore_restoreTracking_def Let_def)
qed

lemma speedSane_step: "speedSane h \<Longrightarrow> speedSane (step settings now e h)"
proof (cases e)
  case (Start foreground dbOk success)
  assume "speedSane h"
  then show ?thesis
    by (simp add: Start speedSane_def startTracking_def createTrip_def Let_def
        tripStore_startTracking_def tripStore_stopTracking_def)
next
  case (Stop ok)
  assume "speedSane h"
  then show ?thesis
    by (auto simp: Stop speedSane_def stopTracking_def completeTrip_def Let_def
        tripStore_reset_def tripStore_stopTracking_def initialState_def list_all_iff
        split: option.splits)
next
  case (Location dbOk location)
  assume "speedSane h"
  then show ?thesis by (simp add: Location speedSane_handleLocationUpdate)
next
  case Tick
  assume "speedSane h"
  then show ?thesis
    by (auto simp: Tick speedSane_def timerTick_def Let_def split: option.splits)
next
  case Foreground
  assume "speedSane h"
  then show ?thesis by (simp add: Foreground speedSane_checkForActiveTrip)
qed (simp_all add: speedSane_def pauseTracking_def resumeTracking_def syncRefs_def
      checkGpsLoss_def updateGpsStatus_def tripStore_pauseTracking_def
      tripStore_resumeTracking_def Let_def)

lemma speedSane_run: "speedSane h \<Longrightarrow> speedSane (run settings h es)"
proof (induction es arbitrary: h)
  case Nil
  then show ?case by simp
next
  case (Cons x es)
  obtain now e where x: "x = (now, e)" by (cases x)
  have "speedSane (step settings now e (fireDue now h))"
    using Cons.prems by (intro speedSane_step speedSane_fireDue)
  then show ?case using Cons.IH by (simp add: x)
qed

lemma speedSane_mounted:
  "list_all (\<lambda>row. 0 \<le> max_speed row) (trips db) \<Longrightarrow> speedSane (mountedHook db t0)"
  by (simp add: speedSane_def mountedHook_def initialState_def)

text \<open>
  Claim C7. In every state the mounted hook can reach, when the one-second interval finds
  the store tracking and not paused, the last fix more than 3 s old and the current speed
  positive, it sets the current speed to 0 without error and leaves the total distance and
  the maximum speed as they were; tracking flags, trip, last location, refs and database
  are untouched as well.
\<close>

theorem speed_decay_keeps_totals:
  assumes "list_all (\<lambda>row. 0 \<le> max_speed row) (trips db)"
    and "h = run settings (mountedHook db t0) es"
    and "isTracking (tripStore h)" and "\<not> isPaused (tripStore h)"
    and "now - lastGpsUpdateRef h > 3000" and "currentSpeed (tripStore h) > 0"
  shows "fst (timerTick now h) = None
    \<and> currentSpeed (tripStore (snd (timerTick now h))) = 0
    \<and> totalDistance (tripStore (snd (timerTick now h))) = totalDistance (tripStore h)
    \<and> maxSpeed (tripStore (snd (timerTick now h))) = maxSpeed (tripStore h)
    \<and> isTracking (tripStore (snd (timerTick now h))) = isTracking (tripStore h)
    \<and> isPaused (tripStore (snd (timerTick now h))) = isPaused (tripStore h)
    \<and> currentTripId (tripStore (snd (timerTick now h))) = currentTripId (tripStore h)
    \<and> lastLocation (tripStore (snd (timerTick now h))) = lastLocation (tripStore h)
    \<and> (snd (timerTick now h))\<lparr>tripStore := tripStore h\<rparr> = h"
proof -
  have "speedSane h"
    using assms(1,2) by (simp add: speedSane_run speedSane_mounted)
  then obtain l where l: "lastLocation (tripStore h) = Some l" and m: "0 \<le> maxSpeed (tripStore h)"
    using assms(6) by (auto simp: speedSane_def)
  show ?thesis
    using assms(3-6) l m by (simp add: timerTick_def Let_def)
qed

theorem speed_decay_keeps_totals_witness:
  "isTracking (tripStore stalled) \<and> \<not> isPaused (tripStore stalled)
   \<and> 7000 - lastGpsUpdateRef stalled > 3000 \<and> currentSpeed (tripStore stalled) = 36
   \<and> currentSpeed (tripStore (snd (timerTick 7000 stalled))) = 0
   \<and> maxSpeed (tripStore (snd (timerTick 7000 stalled))) = 36
   \<and> totalDistance (tripStore (snd (timerTick 7000 stalled))) = totalDistance (tripStore stalled)"
proof -
  have e: "isTracking (tripStore stalled) \<and> \<not> isPaused (tripStore stalled)
      \<and> lastGpsUpdateRef stalled = 3000 \<and> currentSpeed (tripStore stalled) = 36
      \<and> maxSpeed (tripStore stalled) = 36"
    by (simp add: stalled_def drive_def samples_def store_defs db_defs hook_defs const_defs
        DEFAULT_SETTINGS_def fixAt_def Let_def haversineDistance_same)
  have d: "list_all (\<lambda>row. 0 \<le> max_speed row) (trips emptyDatabase)"
    by (simp add: emptyDatabase_def)
  show ?thesis
    using e speed_decay_keeps_totals [OF d stalled_def, of 7000]
    by simp
qed

section \<open>Recovery of a persisted trip\<close>




section \<open>Starting a trip\<close>

text \<open>
  Claim C9 against the code: with permission granted and the Location Source failing to
  start, \<open>startTracking\<close> returns false and the store and the refs are back to not tracking
  with no current trip, but the trip row created by \<open>createTrip\<close> is still in the database
  with status active; the next \<open>checkForActiveTrip\<close> restores it as the tracked trip.
\<close>

theorem failed_start_leaves_active_trip:
  "fst (startTracking 1000 granted True False (mountedHook emptyDatabase 0)) = False
   \<and> isTracking (tripStore (snd (startTracking 1000 granted True False (mountedHook emptyDatabase 0)))) = False
   \<and> currentTripId (tripStore (snd (startTracking 1000 granted True False (mountedHook emptyDatabase 0)))) = None
   \<and> tripIdRef (snd (startTracking 1000 granted True False (mountedHook emptyDatabase 0))) = None
   \<and> map status (trips (database (snd (startTracking 1000 granted True False (mountedHook emptyDatabase 0))))) = [active]
   \<and> map rowid (trips (database (snd (startTracking 1000 granted True False (mountedHook emptyDatabase 0))))) = [1]
   \<and> isTracking (tripStore (checkForActiveTrip 2000
        (snd (startTracking 1000 granted True False (mountedHook emptyDatabase 0))))) = True
   \<and> currentTripId (tripStore (checkForActiveTrip 2000
        (snd (startTracking 1000 granted True False (mountedHook emptyDatabase 0))))) = Some 1"
  by (simp add: store_defs db_defs hook_defs Let_def)

text \<open>The part of claim C9 that holds: a start that fails reports false and leaves an idle
  store idle.\<close>

lemma failed_start_idle:
  "\<not> isTracking (tripStore h) \<Longrightarrow> currentTripId (tripStore h) = None \<Longrightarrow>
   \<not> (foreground = granted \<and> dbOk \<and> success) \<Longrightarrow>
   fst (startTracking now foreground dbOk success h) = False \<and>
   \<not> isTracking (tripStore (snd (startTracking now foreground dbOk success h))) \<and>
   currentTripId (tripStore (snd (startTracking now foreground dbOk success h))) = None"
  by (auto simp: startTracking_def createTrip_def Let_def tripStore_stopTracking_def)

text \<open>The two parts of \<open>startTracking\<close>, run one after the other, are \<open>startTracking\<close>.\<close>

lemma startTracking_split:
  "startTracking now granted True success h =
     startTracking_rest now (fst (startTracking_create now h)) (avgSpeed (tripStore h)) success
       (snd (startTracking_create now h))"
  by (simp add: startTracking_def startTracking_create_def startTracking_rest_def Let_def
      split: prod.splits)

text \<open>
  Claim C3 against the code: \<open>startTracking\<close> has no precondition on the tracking state.
  Called while a trip is active it returns true and creates a second trip row, and the
  database then holds two trips that are not completed. The start button, which issues a
  start only while the store is not tracking, does not prevent it: when START is pressed a
  second time while the first \<open>startTracking\<close> still awaits, both presses find the store not
  tracking, both create a row, and when both have run to the end two trips are active, of
  which the store tracks the second.
\<close>

theorem second_start_not_rejected:
  "isTracking (tripStore (run DEFAULT_SETTINGS (mountedHook emptyDatabase 0)
      [(1000, Start granted True True), (2000, Sync)]))
   \<and> fst (startTracking 60000 granted True True (run DEFAULT_SETTINGS (mountedHook emptyDatabase 0)
      [(1000, Start granted True True), (2000, Sync)]))
   \<and> map status (trips (database (run DEFAULT_SETTINGS (mountedHook emptyDatabase 0)
      [(1000, Start granted True True), (2000, Sync), (60000, Start granted True True)])))
    = [active, active]
   \<and> length (openTrips (database (run DEFAULT_SETTINGS (mountedHook emptyDatabase 0)
      [(1000, Start granted True True), (2000, Sync), (60000, Start granted True True)]))) = 2
   \<and> buttonAllows (tripStore (mountedHook emptyDatabase 0)) (Start granted True True)
   \<and> buttonAllows (tripStore pressedOnce) (Start granted True True)
   \<and> map status (trips (database pressedTwice)) = [active, active]
   \<and> map rowid (trips (database pressedTwice)) = [1, 2]
   \<and> isTracking (tripStore pressedTwice)
   \<and> currentTripId (tripStore pressedTwice) = Some 2"
  by (simp add: pressedOnce_def pressedTwice_def store_defs db_defs hook_defs openTrips_def Let_def)

section \<open>Auto-pause and auto-resume\<close>

text \<open>
  Claim C4 against the code: after the stationary timeout has paused the trip, a fix at
  36 km/h, above the threshold of 2 km/h, leaves the trip paused, and so does the next one.
  \<open>handleLocationUpdate\<close> returns before the stationary detection when the trip is paused,
  and \<open>handleStationaryDetection\<close> returns at once when \<open>isPausedRef\<close> is set, so its
  auto-resume branch is never taken.
\<close>

theorem no_auto_resume:
  "isPaused (tripStore (run autoPauseSettings (mountedHook emptyDatabase 0)
       [(1000, Start granted True True), (2000, Location True (fixAt 2000 (Some 0))), (2000, Sync)])) = False
   \<and> stationaryTimerRef (run autoPauseSettings (mountedHook emptyDatabase 0)
       [(1000, Start granted True True), (2000, Location True (fixAt 2000 (Some 0))), (2000, Sync)]) = Some 7000
   \<and> isPaused (tripStore (run autoPauseSettings (mountedHook emptyDatabase 0) autoPaused)) = True
   \<and> isPausedRef (run autoPauseSettings (mountedHook emptyDatabase 0) autoPaused) = True
   \<and> calculateSpeed (newPointOf 1 (fixAt 8000 (Some 10))) None = 36
   \<and> isPaused (tripStore (run autoPauseSettings (mountedHook emptyDatabase 0)
        (autoPaused @ [(8000, Location True (fixAt 8000 (Some 10)))]))) = True
   \<and> isPaused (tripStore (run autoPauseSettings (mountedHook emptyDatabase 0)
        (autoPaused @ [(8000, Location True (fixAt 8000 (Some 10))), (8000, Sync),
                       (9000, Location True (fixAt 9000 (Some 10)))]))) = True"
  by (simp add: autoPaused_def store_defs db_defs hook_defs const_defs autoPauseSettings_def
      fixAt_def Let_def haversineDistance_same)

text \<open>What a fix does to the stationary timeout of a trip that is underway.\<close>

lemma handleLocationUpdate_underway:
  assumes "underway h"
  shows "underway (handleLocationUpdate settings now dbOk location h)"
proof -
  obtain tid where t: "tripIdRef h = Some tid" "tid \<noteq> 0"
    using assms by (cases "tripIdRef h") (auto simp: underway_def)
  show ?thesis
    using assms t by (simp add: underway_def handleLocationUpdate_def Let_def)
qed

lemma handleLocationUpdate_timer:
  assumes "underway h" and "autoPauseEnabled settings"
  shows "stationaryTimerRef (handleLocationUpdate settings now dbOk location h) =
     (if sampleSpeed h location < autoPauseLimit settings
      then (case stationaryTimerRef h of None \<Rightarrow> Some (now + 5000) | Some due \<Rightarrow> Some due)
      else None)"
proof -
  obtain tid where t: "tripIdRef h = Some tid" "tid \<noteq> 0"
    using assms(1) by (cases "tripIdRef h") (auto simp: underway_def)
  have p: "\<not> isPausedRef h" using assms(1) by (simp add: underway_def)
  show ?thesis
    using t p assms(2)
    by (simp add: handleLocationUpdate_def handleStationaryDetection_def Let_def
        sampleSpeed_def autoPauseLimit_def STATIONARY_CONFIG_duration_def split: option.splits)
qed

text \<open>The other events of a stream leave an underway trip underway, and its timeout alone.\<close>

lemma fixOk_notCommand: "fixOk P now h e \<Longrightarrow> notCommand e"
  by (cases e) simp_all

lemma stream_notCommand:
  "stream settings P h es \<Longrightarrow> list_all (\<lambda>(now, e). notCommand e) es"
proof (induction es arbitrary: h)
  case Nil
  then show ?case by simp
next
  case (Cons x es)
  obtain now e where x: "x = (now, e)" by (cases x)
  show ?case using Cons x by (auto dest: fixOk_notCommand)
qed

lemma other_events_underway:
  assumes "underway h" and "notCommand e" and "\<forall>dbOk location. e \<noteq> Location dbOk location"
  shows "underway (step settings now e h) \<and>
         stationaryTimerRef (step settings now e h) = stationaryTimerRef h"
proof (cases e)
  case Sync
  then show ?thesis using assms(1) by (simp add: underway_def syncRefs_def)
next
  case Tick
  then show ?thesis
    using assms(1) by (simp add: underway_def timerTick_def Let_def split: option.splits)
next
  case GpsCheck
  then show ?thesis
    using assms(1) by (simp add: underway_def checkGpsLoss_def updateGpsStatus_def Let_def)
next
  case Foreground
  then show ?thesis
    using assms(1) by (simp add: underway_def checkForActiveTrip_def split: option.splits)
qed (use assms(2,3) in simp_all)

lemma fireDue_early:
  "(\<And>due. stationaryTimerRef h = Some due \<Longrightarrow> now < due) \<Longrightarrow> fireDue now h = h"
  by (cases "stationaryTimerRef h") (auto simp: fireDue_def)

lemma fireDue_pauses:
  "underway h \<Longrightarrow> stationaryTimerRef h = Some due \<Longrightarrow> due \<le> now \<Longrightarrow>
   isPaused (tripStore (fireDue now h)) \<and> isTracking (tripStore (fireDue now h))"
  by (simp add: fireDue_def stationaryTimeout_def underway_def tripStore_pauseTracking_def)

lemma fireDue_keeps_paused:
  "isPaused (tripStore h) \<and> isTracking (tripStore h) \<Longrightarrow>
   isPaused (tripStore (fireDue now h)) \<and> isTracking (tripStore (fireDue now h))"
  by (simp add: fireDue_def stationaryTimeout_def tripStore_pauseTracking_def split: option.splits)

lemma step_keeps_paused:
  assumes "notCommand e" and "isPaused (tripStore h) \<and> isTracking (tripStore h)"
  shows "isPaused (tripStore (step settings now e h)) \<and> isTracking (tripStore (step settings now e h))"
proof (cases e)
  case (Location dbOk location)
  then show ?thesis using assms(2) by simp
next
  case Sync
  then show ?thesis using assms(2) by (simp add: syncRefs_def)
next
  case Tick
  then show ?thesis using assms(2) by (simp add: timerTick_def)
next
  case GpsCheck
  then show ?thesis
    using assms(2) by (simp add: checkGpsLoss_def updateGpsStatus_def Let_def)
next
  case Foreground
  then show ?thesis
    using assms(2) by (simp add: checkForActiveTrip_def split: option.splits)
qed (use assms(1) in simp_all)

text \<open>Once paused, a stream keeps the trip paused.\<close>

lemma paused_trace:
  "isPaused (tripStore h) \<and> isTracking (tripStore h) \<Longrightarrow>
   list_all (\<lambda>(now, e). notCommand e) es \<Longrightarrow>
   pauseCount True (map (\<lambda>h. isPaused (tripStore h)) (trace settings h es)) = 0 \<and>
   isPaused (tripStore (run settings h es))"
proof (induction es arbitrary: h)
  case Nil
  then show ?case by simp
next
  case (Cons x es)
  obtain now e where x: "x = (now, e)" by (cases x)
  have s: "notCommand e" and r: "list_all (\<lambda>(now, e). notCommand e) es"
    using Cons.prems x by simp_all
  have p: "isPaused (tripStore (step settings now e (fireDue now h)))
      \<and> isTracking (tripStore (step settings now e (fireDue now h)))"
    using Cons.prems(1) by (intro step_keeps_paused [OF s] fireDue_keeps_paused)
  show ?case
    using Cons.IH [OF p r] p by (simp add: x)
qed

text \<open>
  While the timeout is pending and not yet due, a stream below the threshold leaves it
  pending; the first event at or after its instant finds the trip paused by it.
\<close>

lemma pending_step:
  assumes "autoPauseEnabled settings" and "underway h" and "stationaryTimerRef h = Some due"
    and "fixOk (\<lambda>now v. v < autoPauseLimit settings) now (fireDue now h) e" and "now < due"
  shows "underway (step settings now e (fireDue now h)) \<and>
         stationaryTimerRef (step settings now e (fireDue now h)) = Some due"
proof -
  have f: "fireDue now h = h" using assms(3,5) by (intro fireDue_early) simp
  show ?thesis
  proof (cases "\<exists>dbOk location. e = Location dbOk location")
    case True
    then obtain dbOk location where e: "e = Location dbOk location" by blast
    then have r: "sampleSpeed h location < autoPauseLimit settings" using assms(4) f by simp
    show ?thesis
      using handleLocationUpdate_underway [OF assms(2)]
        handleLocationUpdate_timer [OF assms(2) assms(1), of now dbOk location] assms(3) r
      by (simp add: f e)
  next
    case False
    then have n: "\<forall>dbOk location. e \<noteq> Location dbOk location" by blast
    have c: "notCommand e" using assms(4) by (rule fixOk_notCommand)
    show ?thesis
      using other_events_underway [OF assms(2) c n] assms(3) by (simp add: f)
  qed
qed

lemma pending_trace:
  assumes "autoPauseEnabled settings"
  shows "underway h \<Longrightarrow> stationaryTimerRef h = Some due \<Longrightarrow>
   stream settings (\<lambda>now v. v < autoPauseLimit settings) h es \<Longrightarrow>
   pauseCount False (map (\<lambda>h. isPaused (tripStore h)) (trace settings h es))
     = (if list_ex (\<lambda>(now, e). due \<le> now) es then 1 else 0) \<and>
   isPaused (tripStore (run settings h es)) = list_ex (\<lambda>(now, e). due \<le> now) es"
proof (induction es arbitrary: h)
  case Nil
  then show ?case by (simp add: underway_def)
next
  case (Cons x es)
  obtain now e where x: "x = (now, e)" by (cases x)
  let ?h1 = "step settings now e (fireDue now h)"
  have s: "fixOk (\<lambda>now v. v < autoPauseLimit settings) now (fireDue now h) e"
    and r: "stream settings (\<lambda>now v. v < autoPauseLimit settings) ?h1 es"
    using Cons.prems x by simp_all
  have c: "notCommand e" using s by (rule fixOk_notCommand)
  show ?case
  proof (cases "due \<le> now")
    case True
    have p: "isPaused (tripStore ?h1) \<and> isTracking (tripStore ?h1)"
      using fireDue_pauses [OF Cons.prems(1,2) True] by (intro step_keeps_paused [OF c])
    show ?thesis
      using paused_trace [OF p stream_notCommand [OF r], of settings] p True by (simp add: x)
  next
    case False
    then have lt: "now < due" by simp
    have a: "underway ?h1" and t: "stationaryTimerRef ?h1 = Some due"
      using pending_step [OF assms Cons.prems(1,2) s lt] by simp_all
    have "\<not> isPaused (tripStore ?h1)" using a by (simp add: underway_def)
    then show ?thesis
      using Cons.IH [OF a t r] False by (simp add: x)
  qed
qed

lemma run_append: "run settings h (xs @ ys) = run settings (run settings h xs) ys"
  by (induction xs arbitrary: h) auto

lemma trace_append:
  "trace settings h (xs @ ys) = trace settings h xs @ trace settings (run settings h xs) ys"
  by (induction xs arbitrary: h) auto

lemma stream_append:
  "stream settings P h (xs @ ys) =
     (stream settings P h xs \<and> stream settings P (run settings h xs) ys)"
  by (induction xs arbitrary: h) auto

text \<open>
  A timeout armed during the five seconds before \<open>limit\<close> is not due before \<open>limit\<close>: whatever
  the speeds of the fixes, the trip is not paused by any event before \<open>limit\<close>.
\<close>

lemma quiet_step:
  assumes "autoPauseEnabled settings" and "quiet limit h" and "fixOk P now (fireDue now h) e"
    and "limit - 5000 \<le> now" and "now < limit"
  shows "quiet limit (step settings now e (fireDue now h))"
proof -
  have u: "underway h" using assms(2) by (simp add: quiet_def)
  have f: "fireDue now h = h"
    using assms(2,5) by (intro fireDue_early) (simp add: quiet_def)
  show ?thesis
  proof (cases "\<exists>dbOk location. e = Location dbOk location")
    case True
    then obtain dbOk location where e: "e = Location dbOk location" by blast
    show ?thesis
      using handleLocationUpdate_underway [OF u]
        handleLocationUpdate_timer [OF u assms(1), of now dbOk location] assms(2,4)
      by (simp add: f e quiet_def split: option.splits)
  next
    case False
    then have n: "\<forall>dbOk location. e \<noteq> Location dbOk location" by blast
    have c: "notCommand e" using assms(3) by (rule fixOk_notCommand)
    show ?thesis
      using other_events_underway [OF u c n] assms(2) by (simp add: f quiet_def)
  qed
qed

lemma quiet_trace:
  assumes "autoPauseEnabled settings"
  shows "quiet limit h \<Longrightarrow> stream settings P h es \<Longrightarrow>
   list_all (\<lambda>(now, e). limit - 5000 \<le> now \<and> now < limit) es \<Longrightarrow>
   quiet limit (run settings h es) \<and>
   list_all (\<lambda>h. \<not> isPaused (tripStore h)) (trace settings h es)"
proof (induction es arbitrary: h)
  case Nil
  then show ?case by simp
next
  case (Cons x es)
  obtain now e where x: "x = (now, e)" by (cases x)
  let ?h1 = "step settings now e (fireDue now h)"
  have b: "limit - 5000 \<le> now" "now < limit"
    and s: "fixOk P now (fireDue now h) e" and r: "stream settings P ?h1 es"
    and l: "list_all (\<lambda>(now, e). limit - 5000 \<le> now \<and> now < limit) es"
    using Cons.prems x by simp_all
  have q: "quiet limit ?h1"
    by (rule quiet_step [OF assms Cons.prems(1) s b])
  then have "\<not> isPaused (tripStore ?h1)" by (simp add: quiet_def underway_def)
  then show ?case using Cons.IH [OF q r l] by (simp add: x)
qed

text \<open>
  Claim C6. With auto-pause enabled and the duration of 5 s, take a trip that is tracked and
  not paused, with no timeout pending, and a stream of fixes (the computed speed of each is
  meant, whether from the device speed or from distance over time). A fix below the
  threshold at \<open>t0\<close> arms the timeout for \<open>t0 + 5000\<close>. If the stream stays below the threshold
  and lasts until \<open>t0 + 5000\<close> or later (5.5 s, say), the trip changes from not paused to
  paused exactly once. If instead the fix arriving at \<open>t1\<close>, after \<open>t0\<close> and before
  \<open>t0 + 5000\<close>, is at or above the threshold, it clears the timeout, and the trip is not
  paused after any event up to \<open>t0 + 5000\<close>. The threshold is the one of the settings: 2 km/h
  for the unit km/h and a setting of 2, with fixes at 1 km/h and a spike to 3 km/h as an
  instance.
\<close>

theorem auto_pause_debounce:
  assumes "autoPauseEnabled settings"
    and "isTracking (tripStore h)" and "truthy (tripIdRef h)"
    and "currentTripId (tripStore h) = tripIdRef h"
    and "\<not> isPausedRef h" and "\<not> isPaused (tripStore h)" and "stationaryTimerRef h = None"
    and "stream settings (\<lambda>now v. v < autoPauseLimit settings) h
           ((t0, Location ok0 location0) # held)"
    and "list_ex (\<lambda>(now, e). t0 + 5000 \<le> now) held"
    and "stream settings
           (\<lambda>now v. if now = t1 then autoPauseLimit settings \<le> v else v < autoPauseLimit settings) h
           ((t0, Location ok0 location0) # before @ (t1, Location ok1 location1) # after)"
    and "t0 < t1" and "t1 < t0 + 5000"
    and "list_all (\<lambda>(now, e). t0 \<le> now \<and> now \<le> t1) before"
    and "list_all (\<lambda>(now, e). t1 \<le> now \<and> now \<le> t0 + 5000) after"
  shows "stationaryTimerRef (run settings h [(t0, Location ok0 location0)]) = Some (t0 + 5000)
    \<and> pauseCount False (map (\<lambda>h. isPaused (tripStore h))
          (trace settings h ((t0, Location ok0 location0) # held))) = 1
    \<and> isPaused (tripStore (run settings h ((t0, Location ok0 location0) # held)))
    \<and> stationaryTimerRef (run settings h
          ((t0, Location ok0 location0) # before @ [(t1, Location ok1 location1)])) = None
    \<and> list_all (\<lambda>h. \<not> isPaused (tripStore h))
          (trace settings h
             ((t0, Location ok0 location0) # before @ (t1, Location ok1 location1) # after))"
proof -
  let ?below = "\<lambda>now v. v < autoPauseLimit settings"
  let ?spiked = "\<lambda>now v. if now = t1 then autoPauseLimit settings \<le> v
                           else v < autoPauseLimit settings"
  note d = assms(1)
  have u: "underway h" using assms(2-6) by (simp add: underway_def)
  have f: "fireDue t0 h = h" using assms(7) by (simp add: fireDue_def)
  define h1 where "h1 = handleLocationUpdate settings t0 ok0 location0 h"
  have slow0: "sampleSpeed h location0 < autoPauseLimit settings"
    and sh: "stream settings ?below h1 held"
    using assms(8) by (simp_all add: f h1_def)
  have ss: "stream settings ?spiked h1 (before @ (t1, Location ok1 location1) # after)"
    using assms(10) by (simp add: f h1_def)
  have u1: "underway h1" unfolding h1_def by (rule handleLocationUpdate_underway [OF u])
  have t1: "stationaryTimerRef h1 = Some (t0 + 5000)"
    unfolding h1_def using handleLocationUpdate_timer [OF u d, of t0 ok0 location0] assms(7) slow0
    by simp
  have n1: "\<not> isPaused (tripStore h1)" using u1 by (simp add: underway_def)
  have c1: "stationaryTimerRef (run settings h [(t0, Location ok0 location0)]) = Some (t0 + 5000)"
    using t1 by (simp add: f h1_def)
  have p: "pauseCount False (map (\<lambda>h. isPaused (tripStore h)) (trace settings h1 held)) = 1
      \<and> isPaused (tripStore (run settings h1 held))"
    using pending_trace [OF d u1 t1 sh] assms(9) by simp
  have c2: "pauseCount False (map (\<lambda>h. isPaused (tripStore h))
          (trace settings h ((t0, Location ok0 location0) # held))) = 1
    \<and> isPaused (tripStore (run settings h ((t0, Location ok0 location0) # held)))"
    using p n1 by (simp add: f h1_def)
  have q1: "quiet (t0 + 5000) h1" using u1 t1 by (simp add: quiet_def)
  define h2 where "h2 = run settings h1 before"
  have sb: "stream settings ?spiked h1 before"
    and s2: "stream settings ?spiked h2 ((t1, Location ok1 location1) # after)"
    using ss by (simp_all add: stream_append h2_def)
  have lb: "list_all (\<lambda>(now, e). t0 + 5000 - 5000 \<le> now \<and> now < t0 + 5000) before"
    using assms(12,13) by (auto simp: list_all_iff)
  have q2: "quiet (t0 + 5000) h2"
    and tb: "list_all (\<lambda>h. \<not> isPaused (tripStore h)) (trace settings h1 before)"
    unfolding h2_def using quiet_trace [OF d q1 sb lb] by simp_all
  have u2: "underway h2" using q2 by (simp add: quiet_def)
  have f2: "fireDue t1 h2 = h2"
    using q2 assms(12) by (intro fireDue_early) (simp add: quiet_def)
  define h3 where "h3 = handleLocationUpdate settings t1 ok1 location1 h2"
  have fast: "autoPauseLimit settings \<le> sampleSpeed h2 location1"
    and sa: "stream settings ?spiked h3 after"
    using s2 by (simp_all add: f2 h3_def)
  have u3: "underway h3" unfolding h3_def by (rule handleLocationUpdate_underway [OF u2])
  have t3: "stationaryTimerRef h3 = None"
    unfolding h3_def using handleLocationUpdate_timer [OF u2 d, of t1 ok1 location1] fast
    by simp
  have n3: "\<not> isPaused (tripStore h3)" using u3 by (simp add: underway_def)
  have r3: "run settings h1 (before @ [(t1, Location ok1 location1)]) = h3"
    by (simp add: run_append h2_def [symmetric] f2 h3_def)
  have c4: "stationaryTimerRef (run settings h
          ((t0, Location ok0 location0) # before @ [(t1, Location ok1 location1)])) = None"
    using r3 t3 by (simp add: f h1_def [symmetric])
  have q3: "quiet (t1 + 5000) h3" using u3 t3 by (simp add: quiet_def)
  have la: "list_all (\<lambda>(now, e). t1 + 5000 - 5000 \<le> now \<and> now < t1 + 5000) after"
    using assms(11,14) by (auto simp: list_all_iff)
  have ta: "list_all (\<lambda>h. \<not> isPaused (tripStore h)) (trace settings h3 after)"
    using quiet_trace [OF d q3 sa la] by simp
  have "trace settings h1 (before @ (t1, Location ok1 location1) # after)
      = trace settings h1 before @ h3 # trace settings h3 after"
    by (simp add: trace_append h2_def [symmetric] f2 h3_def)
  then have c5: "list_all (\<lambda>h. \<not> isPaused (tripStore h))
          (trace settings h
             ((t0, Location ok0 location0) # before @ (t1, Location ok1 location1) # after))"
    using tb ta n1 n3 by (simp add: f h1_def [symmetric])
  show ?thesis using c1 c2 c4 c5 by simp
qed

text \<open>
  The instance of the claim: threshold 2 km/h, a stream at 1 km/h for 5.5 s, and a spike to
  3 km/h, or to exactly 2 km/h, at second 3.
\<close>

theorem auto_pause_debounce_witness:
  "(stationaryTimerRef (run autoPauseSettings started
        [(2000, Location True (fixAt 2000 (Some (5 / 18))))]) = Some (2000 + 5000)
   \<and> pauseCount False (map (\<lambda>h. isPaused (tripStore h))
        (trace autoPauseSettings started
           ((2000, Location True (fixAt 2000 (Some (5 / 18)))) # heldStream))) = 1
   \<and> isPaused (tripStore (run autoPauseSettings started
        ((2000, Location True (fixAt 2000 (Some (5 / 18)))) # heldStream)))
   \<and> stationaryTimerRef (run autoPauseSettings started
        ((2000, Location True (fixAt 2000 (Some (5 / 18)))) # beforeSpike
           @ [(5000, Location True (fixAt 5000 (Some (5 / 6))))])) = None
   \<and> list_all (\<lambda>h. \<not> isPaused (tripStore h))
        (trace autoPauseSettings started
           ((2000, Location True (fixAt 2000 (Some (5 / 18)))) # beforeSpike
              @ (5000, Location True (fixAt 5000 (Some (5 / 6)))) # afterSpike)))
   \<and> stationaryTimerRef (run autoPauseSettings started
        ((2000, Location True (fixAt 2000 (Some (5 / 18)))) # beforeSpike
           @ [(5000, Location True (fixAt 5000 (Some (5 / 9))))])) = None
   \<and> list_all (\<lambda>h. \<not> isPaused (tripStore h))
        (trace autoPauseSettings started
           ((2000, Location True (fixAt 2000 (Some (5 / 18)))) # beforeSpike
              @ (5000, Location True (fixAt 5000 (Some (5 / 9)))) # afterSpike))"
proof -
  have s: "isTracking (tripStore started)" "truthy (tripIdRef started)"
    "currentTripId (tripStore started) = tripIdRef started"
    "\<not> isPausedRef started" "\<not> isPaused (tripStore started)" "stationaryTimerRef started = None"
    by (simp_all add: started_def store_defs db_defs hook_defs Let_def)
  have c: "autoPauseEnabled autoPauseSettings"
    by (simp add: autoPauseSettings_def)
  have l: "stream autoPauseSettings (\<lambda>now v. v < autoPauseLimit autoPauseSettings) started
        ((2000, Location True (fixAt 2000 (Some (5 / 18)))) # heldStream)"
    by (simp add: heldStream_def crawl_def started_def sampleSpeed_def autoPauseLimit_def
        store_defs db_defs hook_defs const_defs autoPauseSettings_def fixAt_def Let_def
        haversineDistance_same)
  have e: "list_ex (\<lambda>(now, e). 2000 + 5000 \<le> now) heldStream"
    by (simp add: heldStream_def crawl_def)
  have k3: "stream autoPauseSettings
        (\<lambda>now v. if now = 5000 then autoPauseLimit autoPauseSettings \<le> v
                  else v < autoPauseLimit autoPauseSettings) started
        ((2000, Location True (fixAt 2000 (Some (5 / 18)))) # beforeSpike
           @ (5000, Location True (fixAt 5000 (Some (5 / 6)))) # afterSpike)"
    by (simp add: beforeSpike_def afterSpike_def crawl_def started_def sampleSpeed_def
        autoPauseLimit_def store_defs db_defs hook_defs const_defs autoPauseSettings_def
        fixAt_def Let_def haversineDistance_same)
  have k2: "stream autoPauseSettings
        (\<lambda>now v. if now = 5000 then autoPauseLimit autoPauseSettings \<le> v
                  else v < autoPauseLimit autoPauseSettings) started
        ((2000, Location True (fixAt 2000 (Some (5 / 18)))) # beforeSpike
           @ (5000, Location True (fixAt 5000 (Some (5 / 9)))) # afterSpike)"
    by (simp add: beforeSpike_def afterSpike_def crawl_def started_def sampleSpeed_def
        autoPauseLimit_def store_defs db_defs hook_defs const_defs autoPauseSettings_def
        fixAt_def Let_def haversineDistance_same)
  have t: "list_all (\<lambda>(now, e). 2000 \<le> now \<and> now \<le> 5000) beforeSpike"
    "list_all (\<lambda>(now, e). 5000 \<le> now \<and> now \<le> 2000 + 5000) afterSpike"
    by (simp_all add: beforeSpike_def afterSpike_def crawl_def)
  have a3: "stationaryTimerRef (run autoPauseSettings started
        [(2000, Location True (fixAt 2000 (Some (5 / 18))))]) = Some (2000 + 5000)
   \<and> pauseCount False (map (\<lambda>h. isPaused (tripStore h))
        (trace autoPauseSettings started
           ((2000, Location True (fixAt 2000 (Some (5 / 18)))) # heldStream))) = 1
   \<and> isPaused (tripStore (run autoPauseSettings started
        ((2000, Location True (fixAt 2000 (Some (5 / 18)))) # heldStream)))
   \<and> stationaryTimerRef (run autoPauseSettings started
        ((2000, Location True (fixAt 2000 (Some (5 / 18)))) # beforeSpike
           @ [(5000, Location True (fixAt 5000 (Some (5 / 6))))])) = None
   \<and> list_all (\<lambda>h. \<not> isPaused (tripStore h))
        (trace autoPauseSettings started
           ((2000, Location True (fixAt 2000 (Some (5 / 18)))) # beforeSpike
              @ (5000, Location True (fixAt 5000 (Some (5 / 6)))) # afterSpike))"
    by (rule auto_pause_debounce [OF c s l e k3 _ _ t]) simp_all
  have a2: "stationaryTimerRef (run autoPauseSettings started
        [(2000, Location True (fixAt 2000 (Some (5 / 18))))]) = Some (2000 + 5000)
   \<and> pauseCount False (map (\<lambda>h. isPaused (tripStore h))
        (trace autoPauseSettings started
           ((2000, Location True (fixAt 2000 (Some (5 / 18)))) # heldStream))) = 1
   \<and> isPaused (tripStore (run autoPauseSettings started
        ((2000, Location True (fixAt 2000 (Some (5 / 18)))) # heldStream)))
   \<and> stationaryTimerRef (run autoPauseSettings started
        ((2000, Location True (fixAt 2000 (Some (5 / 18)))) # beforeSpike
           @ [(5000, Location True (fixAt 5000 (Some (5 / 9))))])) = None
   \<and> list_all (\<lambda>h. \<not> isPaused (tripStore h))
        (trace autoPauseSettings started
           ((2000, Location True (fixAt 2000 (Some (5 / 18)))) # beforeSpike
              @ (5000, Location True (fixAt 5000 (Some (5 / 9)))) # afterSpike))"
    by (rule auto_pause_debounce [OF c s l e k2 _ _ t]) simp_all
  show ?thesis using a3 a2 by blast
qed
end
